theory Spec2Isabelle
  imports Complex_Main "HOL-Library.Multiset" "HOL-Library.Code_Target_Nat"
begin

section \<open>Numbers, errors and the averaging helper\<close>

text \<open>
  The dashboard script \<^verbatim>\<open>assets/app.js\<close> works on JSON data. A JavaScript number is
  an IEEE double: a finite double is modelled as the rational it denotes (\<open>Num\<close>; the
  sign of zero is not kept), and beside the finite numbers there are the two infinities
  and \<^verbatim>\<open>NaN\<close>. The numeric fields of a record hold finite numbers (\<open>rat\<close>, or \<open>int\<close> for
  the integer fields).

  The sum and the quotient of two doubles are the exact result rounded to a double, or
  an infinity on overflow. The rounding is the first component of the platform, a
  parameter of the model: what is proved holds for every rounding function. The second
  component is the text that \<^verbatim>\<open>Number.prototype.toString\<close> gives for an integer of
  magnitude \<open>2^53\<close> and more, where the digits printed are no longer all the digits of the
  number and exponent notation sets in at \<open>10^21\<close>. \<open>binary64\<close> and
  \<open>large_integer_string\<close> below are the functions of IEEE 754 and ECMAScript.

  An uncaught JavaScript exception is the left injection of a sum type.
\<close>

datatype js_error = TypeError

datatype number = Num rat | PosInf | NegInf | NaN

record platform =
  round_double :: "rat \<Rightarrow> number"
  large_toString :: "int \<Rightarrow> string"

definition js_add :: "(rat \<Rightarrow> number) \<Rightarrow> number \<Rightarrow> number \<Rightarrow> number" where
  \<comment> \<open>\<^verbatim>\<open>x + y\<close> on numbers\<close>
  "js_add rnd a b =
     (case a of
        Num x \<Rightarrow> (case b of Num y \<Rightarrow> rnd (x + y) | PosInf \<Rightarrow> PosInf | NegInf \<Rightarrow> NegInf
                   | NaN \<Rightarrow> NaN)
      | PosInf \<Rightarrow> (case b of Num y \<Rightarrow> PosInf | PosInf \<Rightarrow> PosInf | NegInf \<Rightarrow> NaN | NaN \<Rightarrow> NaN)
      | NegInf \<Rightarrow> (case b of Num y \<Rightarrow> NegInf | PosInf \<Rightarrow> NaN | NegInf \<Rightarrow> NegInf | NaN \<Rightarrow> NaN)
      | NaN \<Rightarrow> NaN)"

definition js_div :: "(rat \<Rightarrow> number) \<Rightarrow> number \<Rightarrow> rat \<Rightarrow> number" where
  \<comment> \<open>\<^verbatim>\<open>x / n\<close> for a finite divisor: \<^verbatim>\<open>0/0\<close> is NaN and \<^verbatim>\<open>x/0\<close> is infinite.\<close>
  "js_div rnd a n =
     (case a of
        Num x \<Rightarrow> (if n = 0 then (if x = 0 then NaN else if 0 < x then PosInf else NegInf)
                   else rnd (x / n))
      | PosInf \<Rightarrow> (if n < 0 then NegInf else PosInf)
      | NegInf \<Rightarrow> (if n < 0 then PosInf else NegInf)
      | NaN \<Rightarrow> NaN)"

definition avg :: "(rat \<Rightarrow> number) \<Rightarrow> rat list \<Rightarrow> number" where
  \<comment> \<open>\<^verbatim>\<open>function avg(a){ return a.length? a.reduce((x,y)=>x+y,0)/a.length : 0; }\<close>\<close>
  "avg rnd a = (if length a \<noteq> 0
                then js_div rnd (foldl (\<lambda>x y. js_add rnd x (Num y)) (Num 0) a)
                       (rat_of_nat (length a))
                else Num 0)"

definition Math_round :: "number \<Rightarrow> number" where
  \<comment> \<open>\<^verbatim>\<open>Math.round\<close>: the nearest integer, a tie goes up; it is exact on a double.\<close>
  "Math_round v = (case v of Num x \<Rightarrow> Num (of_int \<lfloor>x + 1 / 2\<rfloor>) | PosInf \<Rightarrow> PosInf
                   | NegInf \<Rightarrow> NegInf | NaN \<Rightarrow> NaN)"

definition number_gt :: "number \<Rightarrow> number \<Rightarrow> bool" where
  \<comment> \<open>The comparator \<^verbatim>\<open>(a,b)=>a-b\<close> is positive. The difference of two finite doubles
      has the sign of the exact difference; that of equal infinities is NaN.\<close>
  "number_gt a b =
     (case a of
        Num x \<Rightarrow> (case b of Num y \<Rightarrow> y < x | PosInf \<Rightarrow> False | NegInf \<Rightarrow> True | NaN \<Rightarrow> False)
      | PosInf \<Rightarrow> (case b of Num y \<Rightarrow> True | PosInf \<Rightarrow> False | NegInf \<Rightarrow> True | NaN \<Rightarrow> False)
      | NegInf \<Rightarrow> False
      | NaN \<Rightarrow> False)"

definition number_le :: "number \<Rightarrow> number \<Rightarrow> bool" where
  \<comment> \<open>\<^verbatim>\<open>a <= b\<close> on numbers, false with a NaN operand\<close>
  "number_le a b =
     (case a of
        Num x \<Rightarrow> (case b of Num y \<Rightarrow> x \<le> y | PosInf \<Rightarrow> True | NegInf \<Rightarrow> False | NaN \<Rightarrow> False)
      | PosInf \<Rightarrow> (case b of Num y \<Rightarrow> False | PosInf \<Rightarrow> True | NegInf \<Rightarrow> False | NaN \<Rightarrow> False)
      | NegInf \<Rightarrow> (case b of Num y \<Rightarrow> True | PosInf \<Rightarrow> True | NegInf \<Rightarrow> True | NaN \<Rightarrow> False)
      | NaN \<Rightarrow> False)"

section \<open>Strings and number conversions\<close>

text \<open>
  A string is a list of bytes (its UTF-8 encoding). White space and letter case are
  modelled on the ASCII range: \<open>parseInt\<close> and \<open>trim\<close> do not skip the white space
  beyond ASCII, and \<open>toLowerCase\<close> leaves letters beyond ASCII as they are. The
  value of \<open>parseInt\<close> is the exact integer, which is the double that JavaScript returns
  for a numeral below \<open>2^53\<close>.
\<close>

definition is_digit :: "char \<Rightarrow> bool" where
  "is_digit c = (48 \<le> (of_char c :: nat) \<and> (of_char c :: nat) \<le> 57)"

definition digit_val :: "char \<Rightarrow> nat" where
  "digit_val c = of_char c - 48"

definition digit_char :: "nat \<Rightarrow> char" where
  "digit_char d = char_of (48 + d)"

definition is_space :: "char \<Rightarrow> bool" where
  \<comment> \<open>TAB, LF, VT, FF, CR and the space.\<close>
  "is_space c = ((of_char c :: nat) \<in> {9, 10, 11, 12, 13, 32})"

fun show_nat :: "nat \<Rightarrow> string" where
  "show_nat n = (if n < 10 then [digit_char n]
                 else show_nat (n div 10) @ [digit_char (n mod 10)])"

declare show_nat.simps [simp del]

definition Number_toString :: "platform \<Rightarrow> int \<Rightarrow> string" where
  \<comment> \<open>The property key that an integer-valued number is converted to: all its digits
      below \<open>2^53\<close>, the text of the platform from there on.\<close>
  "Number_toString P i =
     (if \<bar>i\<bar> < 9007199254740992
      then (if i < 0 then CHR ''-'' # show_nat (nat (- i)) else show_nat (nat i))
      else (if i < 0 then CHR ''-'' # large_toString P (- i) else large_toString P i))"

definition dec_val :: "string \<Rightarrow> nat" where
  "dec_val ds = foldl (\<lambda>a c. 10 * a + digit_val c) 0 ds"

definition parseInt :: "string \<Rightarrow> int option" where
  \<comment> \<open>\<^verbatim>\<open>parseInt(s, 10)\<close>: leading white space, an optional sign, the longest prefix of
      digits; \<open>None\<close> is NaN.\<close>
  "parseInt s =
     (let t = dropWhile is_space s;
          neg = (case t of [] \<Rightarrow> False | c # _ \<Rightarrow> c = CHR ''-'');
          u = (case t of [] \<Rightarrow> [] | c # r \<Rightarrow> if c = CHR ''-'' \<or> c = CHR ''+'' then r else t);
          ds = takeWhile is_digit u
      in if ds = [] then None
         else Some (if neg then - int (dec_val ds) else int (dec_val ds)))"

definition toFixed1 :: "platform \<Rightarrow> number \<Rightarrow> string" where
  \<comment> \<open>\<^verbatim>\<open>x.toFixed(1)\<close>: the nearest number of tenths, a tie goes away from zero; from
      \<open>10^21\<close> on the text of \<^verbatim>\<open>toString\<close>.\<close>
  "toFixed1 P v =
     (case v of
        NaN \<Rightarrow> ''NaN''
      | PosInf \<Rightarrow> ''Infinity''
      | NegInf \<Rightarrow> ''-Infinity''
      | Num x \<Rightarrow>
          (if x < 0 then ''-'' else [])
          @ (if 1000000000000000000000 \<le> \<bar>x\<bar> then large_toString P \<lfloor>\<bar>x\<bar>\<rfloor>
             else (let n = nat \<lfloor>\<bar>x\<bar> * 10 + 1 / 2\<rfloor>
                   in show_nat (n div 10) @ ''.'' @ show_nat (n mod 10))))"

definition padStart2 :: "string \<Rightarrow> string" where
  \<comment> \<open>\<^verbatim>\<open>s.padStart(2,'0')\<close>\<close>
  "padStart2 s = replicate (2 - length s) CHR ''0'' @ s"

definition toLowerCase :: "string \<Rightarrow> string" where
  "toLowerCase s =
     map (\<lambda>c. if 65 \<le> (of_char c :: nat) \<and> (of_char c :: nat) \<le> 90
               then char_of ((of_char c :: nat) + 32) else c) s"

definition trim :: "string \<Rightarrow> string" where
  "trim s = rev (dropWhile is_space (rev (dropWhile is_space s)))"

fun split :: "char \<Rightarrow> string \<Rightarrow> string list" where
  \<comment> \<open>\<^verbatim>\<open>s.split(sep)\<close> for a separator of one character; the empty string gives one
      empty piece.\<close>
  "split sep [] = [[]]"
| "split sep (c # cs) =
     (if c = sep then [] # split sep cs
      else (case split sep cs of [] \<Rightarrow> [[c]] | p # ps \<Rightarrow> (c # p) # ps))"

section \<open>Sorting, objects and grouping\<close>

text \<open>
  \<^verbatim>\<open>Array.prototype.sort\<close> is stable. It is modelled as the stable insertion sort
  \<open>js_sort\<close>, whose argument \<open>gt a b\<close> says that the comparator's value on \<open>(a, b)\<close>
  is positive. For a consistent comparator every stable sort returns the same array;
  for an inconsistent one the order in JavaScript is implementation-defined.
\<close>

fun js_insert :: "('a \<Rightarrow> 'a \<Rightarrow> bool) \<Rightarrow> 'a \<Rightarrow> 'a list \<Rightarrow> 'a list" where
  "js_insert gt x [] = [x]"
| "js_insert gt x (y # ys) = (if gt x y then y # js_insert gt x ys else x # y # ys)"

definition js_sort :: "('a \<Rightarrow> 'a \<Rightarrow> bool) \<Rightarrow> 'a list \<Rightarrow> 'a list" where
  "js_sort gt xs = foldr (js_insert gt) xs []"

definition num_gt :: "'n::linorder option \<Rightarrow> 'n option \<Rightarrow> bool" where
  \<comment> \<open>The comparator \<^verbatim>\<open>(a,b)=>a-b\<close> is positive; with a NaN operand it is NaN, which
      \<^verbatim>\<open>sort\<close> reads as 0.\<close>
  "num_gt a b = (case a of None \<Rightarrow> False
                 | Some x \<Rightarrow> (case b of None \<Rightarrow> False | Some y \<Rightarrow> y < x))"

text \<open>
  An object built by assignment is a list of its own properties in insertion order.
  \<open>Object_entries\<close> lists them in the order of \<^verbatim>\<open>Object.keys\<close>, \<^verbatim>\<open>Object.values\<close>
  and \<^verbatim>\<open>Object.entries\<close>: array indices first, ascending, then the other keys in
  insertion order. The names in \<open>Object_prototype_names\<close> are inherited by
  every object literal, with values that are neither falsy nor arrays.
\<close>

type_synonym 'v js_object = "(string \<times> 'v) list"

definition Object_prototype_names :: "string list" where
  "Object_prototype_names =
     [''constructor'', ''__defineGetter__'', ''__defineSetter__'', ''hasOwnProperty'',
      ''__lookupGetter__'', ''__lookupSetter__'', ''isPrototypeOf'', ''propertyIsEnumerable'',
      ''toString'', ''valueOf'', ''__proto__'', ''toLocaleString'']"

definition is_array_index :: "string \<Rightarrow> bool" where
  \<comment> \<open>A canonical numeric string of an integer from 0 to \<open>2^32 - 2\<close>.\<close>
  "is_array_index k = (k = show_nat (dec_val k) \<and> dec_val k < 4294967295)"

definition Object_entries :: "'v js_object \<Rightarrow> (string \<times> 'v) list" where
  "Object_entries obj =
     sort_key (\<lambda>kv. dec_val (fst kv)) (filter (\<lambda>kv. is_array_index (fst kv)) obj)
     @ filter (\<lambda>kv. \<not> is_array_index (fst kv)) obj"

definition Object_keys :: "'v js_object \<Rightarrow> string list" where
  "Object_keys obj = map fst (Object_entries obj)"

definition Object_values :: "'v js_object \<Rightarrow> 'v list" where
  "Object_values obj = map snd (Object_entries obj)"

fun push_group :: "string \<Rightarrow> 'a \<Rightarrow> 'a list js_object \<Rightarrow> 'a list js_object" where
  \<comment> \<open>\<^verbatim>\<open>(acc[k] = acc[k]||[]).push(cur)\<close> on own properties\<close>
  "push_group k cur [] = [(k, [cur])]"
| "push_group k cur ((k', arr) # rest) =
     (if k = k' then (k', arr @ [cur]) # rest else (k', arr) # push_group k cur rest)"

fun reduce_groups ::
  "('a \<Rightarrow> string) \<Rightarrow> 'a list \<Rightarrow> 'a list js_object \<Rightarrow> js_error + 'a list js_object" where
  \<comment> \<open>The \<^verbatim>\<open>reduce\<close> of \<^verbatim>\<open>groupBy\<close>. For an inherited name \<^verbatim>\<open>acc[k]||[]\<close> is the
      inherited value, which has no \<^verbatim>\<open>push\<close>: the call throws.\<close>
  "reduce_groups key [] acc = Inr acc"
| "reduce_groups key (cur # rest) acc =
     (if key cur \<in> set Object_prototype_names then Inl TypeError
      else reduce_groups key rest (push_group (key cur) cur acc))"

definition groupBy :: "'a list \<Rightarrow> ('a \<Rightarrow> string) \<Rightarrow> js_error + 'a list js_object" where
  \<comment> \<open>\<^verbatim>\<open>function groupBy(arr, key)\<close>; \<open>key\<close> reads the property and converts it to a
      property key.\<close>
  "groupBy arr key = reduce_groups key arr []"

fun map_or_throw :: "('a \<Rightarrow> js_error + 'b) \<Rightarrow> 'a list \<Rightarrow> js_error + 'b list" where
  \<comment> \<open>\<^verbatim>\<open>xs.map(f)\<close> for a callback that can throw\<close>
  "map_or_throw f [] = Inr []"
| "map_or_throw f (x # xs) =
     (case f x of Inl e \<Rightarrow> Inl e
      | Inr y \<Rightarrow> (case map_or_throw f xs of Inl e \<Rightarrow> Inl e | Inr ys \<Rightarrow> Inr (y # ys)))"

section \<open>Fare records and the filter of \<^verbatim>\<open>runAnalysis\<close>\<close>

text \<open>
  One element of \<^verbatim>\<open>data/sample_data.json\<close>. The airline is optional: a record can
  lack the property or hold \<^verbatim>\<open>null\<close> there.
\<close>

datatype airline_field = NoAirline | NullAirline | Airline string

record FareRecord =
  origin :: string
  destination_iata :: string
  airline :: airline_field
  outbound_date :: string
  return_date :: string
  trip_length_days :: int
  days_before_departure :: int
  stops :: int
  max_layover_hours :: rat
  price_eur :: rat

text \<open>The values of the form controls that \<^verbatim>\<open>runAnalysis\<close> reads.\<close>

record form =
  startDate :: string
  tripLength :: string
  useAMS :: bool
  useEIN :: bool
  maxStops :: string
  maxLayover :: string
  excludeAirlines :: string
  citySelect :: string

text \<open>
  \<^verbatim>\<open>new Date(s)\<close> is a parameter \<open>Date\<close> of the model: the time value of the string,
  or \<open>None\<close> for an invalid date. Comparing with an invalid date is false.
\<close>

type_synonym date_parser = "string \<Rightarrow> int option"

definition num_lt :: "'n::linorder option \<Rightarrow> 'n option \<Rightarrow> bool" where
  \<comment> \<open>\<^verbatim>\<open>a < b\<close> on numbers, false with a NaN operand\<close>
  "num_lt a b = (case a of None \<Rightarrow> False
                 | Some x \<Rightarrow> (case b of None \<Rightarrow> False | Some y \<Rightarrow> x < y))"

definition num_le :: "'n::linorder option \<Rightarrow> 'n option \<Rightarrow> bool" where
  \<comment> \<open>\<^verbatim>\<open>a <= b\<close> on numbers, false with a NaN operand\<close>
  "num_le a b = (case a of None \<Rightarrow> False
                 | Some x \<Rightarrow> (case b of None \<Rightarrow> False | Some y \<Rightarrow> x \<le> y))"

definition airline_or_empty :: "FareRecord \<Rightarrow> string" where
  \<comment> \<open>\<^verbatim>\<open>r.airline||''\<close>\<close>
  "airline_or_empty r =
     (case airline r of NoAirline \<Rightarrow> [] | NullAirline \<Rightarrow> [] | Airline a \<Rightarrow> a)"

definition exclude_list :: "string \<Rightarrow> string list" where
  \<comment> \<open>\<^verbatim>\<open>(v||'').split(',').map(s=>s.trim().toLowerCase()).filter(Boolean)\<close>\<close>
  "exclude_list v = filter (\<lambda>s. s \<noteq> []) (map (\<lambda>s. toLowerCase (trim s)) (split CHR '','' v))"

definition date_and_length_ok :: "date_parser \<Rightarrow> form \<Rightarrow> FareRecord \<Rightarrow> bool" where
  \<comment> \<open>The callback of the third \<^verbatim>\<open>filter\<close> (lines 53 to 57).\<close>
  "date_and_length_ok Date f r =
     (let out = Date (outbound_date r);
          start = Date (startDate f);
          endWindow = Date ''2026-08-26''
      in if num_lt out start \<or> num_lt endWindow out then False
         else (case parseInt (tripLength f) of None \<Rightarrow> False
               | Some t \<Rightarrow> \<bar>trip_length_days r - t\<bar> \<le> 2))"

definition stops_and_layover_ok :: "form \<Rightarrow> FareRecord \<Rightarrow> bool" where
  \<comment> \<open>The callback of the fourth \<^verbatim>\<open>filter\<close> (line 58).\<close>
  "stops_and_layover_ok f r =
     ((if parseInt (maxStops f) = Some 3 then True
       else num_le (Some (stops r)) (parseInt (maxStops f)))
      \<and> num_le (Some (max_layover_hours r)) (map_option rat_of_int (parseInt (maxLayover f))))"

definition filterRows :: "date_parser \<Rightarrow> form \<Rightarrow> FareRecord list \<Rightarrow> FareRecord list" where
  \<comment> \<open>Lines 39 to 59 of \<^verbatim>\<open>runAnalysis\<close>: the five filters, in the order of the source.\<close>
  "filterRows Date f raw =
     (let exclude = exclude_list (excludeAirlines f);
          dest = citySelect f;
          rows = filter (\<lambda>r. destination_iata r = dest) raw;
          rows = filter (\<lambda>r. (useAMS f \<and> origin r = ''AMS'') \<or> (useEIN f \<and> origin r = ''EIN'')) rows;
          rows = filter (date_and_length_ok Date f) rows;
          rows = filter (stops_and_layover_ok f) rows;
          rows = (if exclude \<noteq> []
                  then filter (\<lambda>r. \<not> List.member exclude (toLowerCase (airline_or_empty r))) rows
                  else rows)
      in rows)"

definition accepts :: "date_parser \<Rightarrow> form \<Rightarrow> FareRecord \<Rightarrow> bool" where
  \<comment> \<open>The conjunction of the five per-record predicates.\<close>
  "accepts Date f r =
     (destination_iata r = citySelect f
      \<and> ((useAMS f \<and> origin r = ''AMS'') \<or> (useEIN f \<and> origin r = ''EIN''))
      \<and> date_and_length_ok Date f r
      \<and> stops_and_layover_ok f r
      \<and> (exclude_list (excludeAirlines f) \<noteq> [] \<longrightarrow>
           \<not> List.member (exclude_list (excludeAirlines f)) (toLowerCase (airline_or_empty r))))"

section \<open>The chart and table builders\<close>

text \<open>
  A builder returns the data it hands to the chart library or writes into the table
  body, or the exception it throws. Drawing the chart and the markup of the table rows
  are left to the library and the document.
\<close>

record buy_chart =
  buy_labels :: "int option list"
  buy_data :: "number list"

definition number_key :: "platform \<Rightarrow> int option \<Rightarrow> string" where
  \<comment> \<open>The property key of a number used as an index: \<^verbatim>\<open>byDays[d]\<close>\<close>
  "number_key P d = (case d of None \<Rightarrow> ''NaN'' | Some n \<Rightarrow> Number_toString P n)"

definition buildBuyTimingChart :: "platform \<Rightarrow> FareRecord list \<Rightarrow> js_error + buy_chart" where
  \<comment> \<open>Lines 76 to 78; \<^verbatim>\<open>byDays[d].map\<close> throws when the key is absent.\<close>
  "buildBuyTimingChart P rows =
     (case groupBy rows (\<lambda>r. Number_toString P (days_before_departure r)) of
        Inl e \<Rightarrow> Inl e
      | Inr byDays \<Rightarrow>
          (let labels = js_sort num_gt (map parseInt (Object_keys byDays))
           in case map_or_throw
                     (\<lambda>d. case map_of byDays (number_key P d) of
                             None \<Rightarrow> Inl TypeError
                           | Some arr \<Rightarrow>
                               Inr (Math_round (avg (round_double P) (map price_eur arr))))
                     labels of
                Inl e \<Rightarrow> Inl e
              | Inr prices \<Rightarrow> Inr \<lparr>buy_labels = labels, buy_data = prices\<rparr>))"

record airline_row =
  row_airline :: string
  row_price :: number
  row_stops :: string
  row_layover :: string

definition airline_key :: "FareRecord \<Rightarrow> string" where
  \<comment> \<open>\<^verbatim>\<open>cur['airline']\<close> as a property key; a missing property is \<^verbatim>\<open>undefined\<close>\<close>
  "airline_key r =
     (case airline r of
        NoAirline \<Rightarrow> ''undefined'' | NullAirline \<Rightarrow> ''null'' | Airline a \<Rightarrow> a)"

definition airline_item :: "platform \<Rightarrow> string \<times> FareRecord list \<Rightarrow> airline_row" where
  \<comment> \<open>The callback of the \<^verbatim>\<open>map\<close> in line 87.\<close>
  "airline_item P e =
     \<lparr>row_airline = fst e,
      row_price = Math_round (avg (round_double P) (map price_eur (snd e))),
      row_stops = toFixed1 P (avg (round_double P) (map (\<lambda>x. rat_of_int (stops x)) (snd e))),
      row_layover = toFixed1 P (avg (round_double P) (map max_layover_hours (snd e)))\<rparr>"

definition buildAirlineTable :: "platform \<Rightarrow> FareRecord list \<Rightarrow> js_error + airline_row list" where
  \<comment> \<open>Lines 86 and 87: the rows of the table, in the order they are appended.\<close>
  "buildAirlineTable P rows =
     (case groupBy rows airline_key of
        Inl e \<Rightarrow> Inl e
      | Inr groups \<Rightarrow>
          Inr (js_sort (\<lambda>a b. number_gt (row_price a) (row_price b))
                 (map (airline_item P) (Object_entries groups))))"

definition cheapest :: "FareRecord list \<Rightarrow> js_error + FareRecord" where
  \<comment> \<open>\<^verbatim>\<open>arr.sort((a,b)=>a.price_eur-b.price_eur)[0]\<close>; using an \<^verbatim>\<open>undefined\<close>
      element throws.\<close>
  "cheapest arr =
     (case js_sort (\<lambda>a b. num_gt (Some (price_eur a)) (Some (price_eur b))) arr of
        [] \<Rightarrow> Inl TypeError
      | r # _ \<Rightarrow> Inr r)"

definition buildItineraryTable :: "date_parser \<Rightarrow> FareRecord list \<Rightarrow> js_error + FareRecord list" where
  \<comment> \<open>Lines 93 and 94: the records whose rows are appended, in order.\<close>
  "buildItineraryTable Date rows =
     (case groupBy rows outbound_date of
        Inl e \<Rightarrow> Inl e
      | Inr byDate \<Rightarrow>
          (case map_or_throw cheapest (Object_values byDate) of
             Inl e \<Rightarrow> Inl e
           | Inr best \<Rightarrow>
               Inr (js_sort (\<lambda>a b. num_gt (Date (outbound_date a)) (Date (outbound_date b))) best)))"

section \<open>The calendar chart\<close>

text \<open>
  \<^verbatim>\<open>data/monthly_lowest.json\<close>: route key, year and two-digit month lead to the
  entries of the week buckets, each an entry or \<^verbatim>\<open>null\<close>.
\<close>

type_synonym 'e MonthlyLowest = "string \<rightharpoonup> (string \<rightharpoonup> (string \<rightharpoonup> 'e option list))"

record 'e dataset =
  ds_label :: string
  ds_data :: "'e option list"

record 'e calendar_chart =
  cal_labels :: "string list"
  cal_datasets :: "'e dataset list"

definition months :: "string list" where
  "months = [''Jan'', ''Feb'', ''Mrt'', ''Apr'', ''Mei'', ''Jun'',
             ''Jul'', ''Aug'', ''Sep'', ''Okt'', ''Nov'', ''Dec'']"

definition nb_hyphen :: string where
  \<comment> \<open>U+2011, the non-breaking hyphen of the labels\<close>
  "nb_hyphen = [CHR 0xE2, CHR 0x80, CHR 0x91]"

definition en_dash :: string where
  \<comment> \<open>U+2013\<close>
  "en_dash = [CHR 0xE2, CHR 0x80, CHR 0x93]"

definition calendar_labels :: "string list" where
  \<comment> \<open>Line 104.\<close>
  "calendar_labels =
     concat (map (\<lambda>m. [m @ nb_hyphen @ ''W1'', m @ nb_hyphen @ ''W2'',
                        m @ nb_hyphen @ ''W3'', m @ nb_hyphen @ ''W4'']) months)"

definition lookup_month ::
  "'e MonthlyLowest \<Rightarrow> string \<Rightarrow> string \<Rightarrow> string \<Rightarrow> 'e option list option" where
  \<comment> \<open>\<^verbatim>\<open>all?.[key]?.[y]?.[mm]\<close>\<close>
  "lookup_month all key y mm =
     Option.bind (Option.bind (all key) (\<lambda>route. route y)) (\<lambda>year. year mm)"

definition getSeries :: "'e MonthlyLowest \<Rightarrow> string \<Rightarrow> string \<Rightarrow> 'e option list" where
  \<comment> \<open>Line 107: a month without entry gives four \<^verbatim>\<open>null\<close>s.\<close>
  "getSeries all key y =
     concat (map (\<lambda>i. case lookup_month all key y (padStart2 (show_nat (i + 1))) of
                         None \<Rightarrow> [None, None, None, None]
                       | Some buckets \<Rightarrow> buckets)
                 [0 ..< length months])"

definition buildCalendarChart ::
  "'e MonthlyLowest option \<Rightarrow> string \<Rightarrow> string \<Rightarrow> 'e calendar_chart option" where
  \<comment> \<open>Lines 99 to 117. The first argument is the outcome of the fetch and of
      \<^verbatim>\<open>res.json()\<close>; on \<open>None\<close> the exception is ignored and no chart is made.\<close>
  "buildCalendarChart fetched origin' dest =
     (case fetched of
        None \<Rightarrow> None
      | Some all \<Rightarrow>
          (let key = origin' @ ''-'' @ dest;
               nowY = ''2026''; prevY = ''2025'';
               sNow = getSeries all key nowY;
               sPrev = (case Option.bind (all key) (\<lambda>route. route prevY) of
                          None \<Rightarrow> None
                        | Some _ \<Rightarrow> Some (getSeries all key prevY));
               datasets = [\<lparr>ds_label = key @ '' '' @ en_dash @ '' '' @ nowY, ds_data = sNow\<rparr>];
               datasets = (case sPrev of
                             None \<Rightarrow> datasets
                           | Some s \<Rightarrow>
                               datasets @ [\<lparr>ds_label = key @ '' '' @ en_dash @ '' '' @ prevY,
                                            ds_data = s\<rparr>])
           in Some \<lparr>cal_labels = calendar_labels, cal_datasets = datasets\<rparr>))"

section \<open>Loading the data and running the analysis\<close>

text \<open>
  The outcome of \<^verbatim>\<open>fetch\<close>: a network error rejects; any HTTP response resolves, with
  its status and the result of \<^verbatim>\<open>res.json()\<close> (\<open>None\<close> when the body is not JSON).
  A JSON value is a list of records or something else.
\<close>

datatype payload = Records "FareRecord list" | NotAnArray

datatype fetch_result = NetworkError | Response nat "payload option"

definition loadData :: "fetch_result \<Rightarrow> payload" where
  \<comment> \<open>Lines 22 to 25: the new value of \<^verbatim>\<open>state.raw\<close>.\<close>
  "loadData res =
     (case res of
        NetworkError \<Rightarrow> Records []
      | Response status body \<Rightarrow> (case body of None \<Rightarrow> Records [] | Some v \<Rightarrow> v))"

record 'e analysis =
  filtered :: "FareRecord list"
  buyTimingChart :: buy_chart
  airlineTable :: "airline_row list"
  itineraryTable :: "FareRecord list"
  calendarOrigin :: string
  calendarChart :: "'e calendar_chart option"

definition runAnalysis ::
  "date_parser \<Rightarrow> platform \<Rightarrow> form \<Rightarrow> payload \<Rightarrow> 'e MonthlyLowest option
     \<Rightarrow> js_error + 'e analysis" where
  \<comment> \<open>Lines 38 to 68. \<^verbatim>\<open>state.raw.filter\<close> throws unless \<^verbatim>\<open>state.raw\<close> is an array;
      an exception in a builder ends the function before the calendar chart.\<close>
  "runAnalysis Date P f raw fetched =
     (case raw of
        NotAnArray \<Rightarrow> Inl TypeError
      | Records rs \<Rightarrow>
          (let rows = filterRows Date f rs
           in case buildBuyTimingChart P rows of
                Inl e \<Rightarrow> Inl e
              | Inr buy \<Rightarrow>
                  (case buildAirlineTable P rows of
                     Inl e \<Rightarrow> Inl e
                   | Inr airlines \<Rightarrow>
                       (case buildItineraryTable Date rows of
                          Inl e \<Rightarrow> Inl e
                        | Inr itinerary \<Rightarrow>
                            (let origin' = (if useAMS f then ''AMS''
                                           else (if useEIN f then ''EIN'' else ''AMS''))
                             in Inr \<lparr>filtered = rows, buyTimingChart = buy,
                                     airlineTable = airlines, itineraryTable = itinerary,
                                     calendarOrigin = origin',
                                     calendarChart =
                                       buildCalendarChart fetched origin' (citySelect f)\<rparr>)))))"

text \<open>
  An example of a date parser: the date-only form \<^verbatim>\<open>YYYY-MM-DD\<close>, read as midnight UTC
  in milliseconds since 1970; any other string is an invalid date, also a day beyond the
  length of its month, which some engines roll over into the next month.
\<close>

definition days_in_month :: "int \<Rightarrow> int \<Rightarrow> int" where
  "days_in_month y m =
     (if m = 2 then (if y mod 4 = 0 \<and> (y mod 100 \<noteq> 0 \<or> y mod 400 = 0) then 29 else 28)
      else if m \<in> {4, 6, 9, 11} then 30 else 31)"

definition days_from_civil :: "int \<Rightarrow> int \<Rightarrow> int \<Rightarrow> int" where
  "days_from_civil y m d =
     (let y' = (if m \<le> 2 then y - 1 else y);
          era = y' div 400;
          yoe = y' - era * 400;
          doy = (153 * (if m > 2 then m - 3 else m + 9) + 2) div 5 + d - 1;
          doe = yoe * 365 + yoe div 4 - yoe div 100 + doy
      in era * 146097 + doe - 719468)"

definition Date_iso :: date_parser where
  "Date_iso s =
     (if length s = 10 \<and> s ! 4 = CHR ''-'' \<and> s ! 7 = CHR ''-''
         \<and> list_all is_digit (take 4 s @ take 2 (drop 5 s) @ drop 8 s)
      then (let y = int (dec_val (take 4 s));
                m = int (dec_val (take 2 (drop 5 s)));
                d = int (dec_val (drop 8 s))
            in if 1 \<le> m \<and> m \<le> 12 \<and> 1 \<le> d \<and> d \<le> days_in_month y m
               then Some (days_from_civil y m d * 86400000) else None)
      else None)"

text \<open>
  The platform of the witnesses. \<open>binary64\<close> rounds a rational to the nearest double,
  a tie going to the even significand: 53 bits above the exponent \<open>-1022\<close>, multiples of
  \<open>2^-1074\<close> below it, an infinity from \<open>2^1024\<close> on. \<open>large_integer_string\<close> prints
  an integer as \<^verbatim>\<open>Number.prototype.toString\<close> does: the fewest leading digits that
  read back as the same double, then zeros up to 21 digits and exponent notation beyond.
\<close>

fun two_to :: "nat \<Rightarrow> int" where
  "two_to n = (if n = 0 then 1
               else (let h = two_to (n div 2) in if n mod 2 = 0 then h * h else 2 * h * h))"

declare two_to.simps [simp del]

definition pow2 :: "int \<Rightarrow> rat" where
  "pow2 e = (if 0 \<le> e then of_int (two_to (nat e)) else 1 / of_int (two_to (nat (- e))))"

function bit_length :: "int \<Rightarrow> int" where
  "bit_length n = (if n \<le> 0 then 0 else 1 + bit_length (n div 2))"
  by pat_completeness auto
termination
  by (relation "measure nat") auto

declare bit_length.simps [simp del]

definition floor_log2 :: "rat \<Rightarrow> int" where
  \<comment> \<open>The exponent \<open>e\<close> with \<open>2^e \<le> a < 2^(e+1)\<close>, for a positive \<open>a\<close>.\<close>
  "floor_log2 a =
     (let e = bit_length (fst (quotient_of a)) - bit_length (snd (quotient_of a))
      in if pow2 e \<le> a then e else e - 1)"

definition round_half_even :: "rat \<Rightarrow> int" where
  "round_half_even y =
     (let f = \<lfloor>y\<rfloor>; d = y - of_int f
      in if d < 1 / 2 then f else if 1 / 2 < d then f + 1
         else if f mod 2 = 0 then f else f + 1)"

definition binary64 :: "rat \<Rightarrow> number" where
  "binary64 x =
     (if x = 0 then Num 0
      else (let a = \<bar>x\<bar>;
                e = max (floor_log2 a) (- 1022);
                q = pow2 (e - 52);
                r = of_int (round_half_even (a / q)) * q
            in if pow2 1024 \<le> r then (if 0 < x then PosInf else NegInf)
               else Num (if 0 < x then r else - r)))"

function show_int :: "int \<Rightarrow> string" where
  \<comment> \<open>The decimal digits of a non-negative integer.\<close>
  "show_int n = (if n < 10 then [digit_char (nat n)]
                 else show_int (n div 10) @ [digit_char (nat (n mod 10))])"
  by pat_completeness auto
termination
  by (relation "measure nat") auto

declare show_int.simps [simp del]

definition reads_back :: "int \<Rightarrow> int \<Rightarrow> bool" where
  "reads_back x y = (binary64 (of_int y) = Num (of_int x))"

function shortest_from :: "int \<Rightarrow> nat \<Rightarrow> nat \<Rightarrow> int" where
  \<comment> \<open>The number with the fewest leading digits, \<open>k\<close> or more of the \<open>n\<close> digits of
      \<open>x\<close>, that reads back as \<open>x\<close>; of two such numbers the one nearer to \<open>x\<close>.\<close>
  "shortest_from x n k =
     (if n < k then x
      else (let p = 10 ^ (n - k); lo = (x div p) * p; hi = lo + p
            in if x - lo \<le> hi - x
               then (if reads_back x lo then lo
                     else if reads_back x hi then hi else shortest_from x n (Suc k))
               else (if reads_back x hi then hi
                     else if reads_back x lo then lo else shortest_from x n (Suc k))))"
  by pat_completeness auto
termination
  by (relation "measure (\<lambda>(x, n, k). Suc n - k)") auto

declare shortest_from.simps [simp del]

definition large_integer_string :: "int \<Rightarrow> string" where
  "large_integer_string x =
     (let ds = show_int (shortest_from x (length (show_int x)) 1);
          n = length ds
      in if n \<le> 21 then ds
         else (let ms = rev (dropWhile (\<lambda>c. c = CHR ''0'') (rev ds))
               in take 1 ms @ (if 1 < length ms then ''.'' @ drop 1 ms else []) @ ''e+''
                  @ show_nat (n - 1)))"

definition ieee :: platform where
  "ieee = \<lparr>round_double = binary64, large_toString = large_integer_string\<rparr>"

section \<open>Invariants of the data and example data\<close>

definition wf_MonthlyLowest :: "'e MonthlyLowest \<Rightarrow> bool" where
  \<comment> \<open>The invariant of the monthly data: every month that is present has four buckets.\<close>
  "wf_MonthlyLowest all =
     (\<forall>key route y year mm buckets.
        all key = Some route \<longrightarrow> route y = Some year \<longrightarrow> year mm = Some buckets \<longrightarrow>
        length buckets = 4)"

definition grouped :: "('a \<Rightarrow> string) \<Rightarrow> 'a list \<Rightarrow> 'a list js_object \<Rightarrow> bool" where
  \<comment> \<open>What \<open>groupBy\<close> returns: one own property per key that occurs, holding the
      elements with that key in their order.\<close>
  "grouped key rows g =
     (distinct (map fst g) \<and>
      (\<forall>k. map_of g k =
            (if k \<in> key ` set rows then Some (filter (\<lambda>r. key r = k) rows) else None)))"

definition example_tap :: FareRecord where
  "example_tap =
     \<lparr>origin = ''AMS'', destination_iata = ''LIS'', airline = Airline ''TAP'',
      outbound_date = ''2026-07-20'', return_date = ''2026-08-10'', trip_length_days = 21,
      days_before_departure = 30, stops = 0, max_layover_hours = 0, price_eur = 120\<rparr>"

definition example_klm :: FareRecord where
  "example_klm =
     \<lparr>origin = ''AMS'', destination_iata = ''LIS'', airline = Airline ''KLM'',
      outbound_date = ''2026-07-20'', return_date = ''2026-08-09'', trip_length_days = 20,
      days_before_departure = 7, stops = 1, max_layover_hours = 3, price_eur = 95\<rparr>"

definition example_form :: form where
  "example_form =
     \<lparr>startDate = ''2026-07-01'', tripLength = ''21'', useAMS = True, useEIN = False,
      maxStops = ''3'', maxLayover = ''24'', excludeAirlines = [], citySelect = ''LIS''\<rparr>"

definition example_monthly :: "rat MonthlyLowest" where
  \<comment> \<open>One route with data for March 2026 only.\<close>
  "example_monthly =
     [''AMS-LIS'' \<mapsto> [''2026'' \<mapsto> [''03'' \<mapsto> [Some 129, None, Some 112, None]]]]"

definition example_tra :: FareRecord where
  "example_tra =
     \<lparr>origin = ''EIN'', destination_iata = ''LIS'', airline = Airline ''Transavia'',
      outbound_date = ''2026-07-18'', return_date = ''2026-08-08'', trip_length_days = 21,
      days_before_departure = 7, stops = 0, max_layover_hours = 0, price_eur = 100\<rparr>"

definition time_value :: "date_parser \<Rightarrow> FareRecord \<Rightarrow> int" where
  \<comment> \<open>The time value of the outbound date of a record whose date is valid.\<close>
  "time_value Date r = (case Date (outbound_date r) of None \<Rightarrow> 0 | Some t \<Rightarrow> t)"

section \<open>Properties of the averaging helper\<close>

lemma foldl_exact_sum:
  "foldl (\<lambda>x y. js_add Num x (Num y)) (Num s) a = Num (s + sum_list a)"
  by (induction a arbitrary: s) (simp_all add: js_add_def add.assoc)

lemma avg_exact: "a \<noteq> [] \<Longrightarrow> avg Num a = Num (sum_list a / rat_of_nat (length a))"
  by (simp add: avg_def js_div_def foldl_exact_sum)

lemma Math_round_NaN: "Math_round v = NaN \<longleftrightarrow> v = NaN"
  by (cases v) (simp_all add: Math_round_def)

text \<open>
  C5. The average of the empty list is the number 0, not NaN, whatever the rounding of
  the platform: the unguarded division \<open>0 / 0\<close> would be NaN, and \<open>avg\<close> takes the
  division only for a non-empty list, where it is the sum, added up from 0 in the order
  of the list, divided by the length. In exact arithmetic (the rounding \<open>Num\<close>) that is
  the mean of the list.
\<close>

theorem avg_empty_is_zero:
  "avg rnd [] = Num 0 \<and> js_div rnd (Num 0) (rat_of_nat (length ([] :: rat list))) = NaN \<and>
   (a \<noteq> [] \<longrightarrow>
      avg rnd a = js_div rnd (foldl (\<lambda>x y. js_add rnd x (Num y)) (Num 0) a)
                    (rat_of_nat (length a)) \<and>
      avg Num a = Num (sum_list a / rat_of_nat (length a)))"
  by (simp add: avg_def js_div_def foldl_exact_sum)

theorem avg_empty_is_zero_witness:
  "avg binary64 [] = Num 0 \<and> [100, 95 :: rat] \<noteq> [] \<and> avg binary64 [100, 95] = Num (195 / 2)
   \<and> avg Num [100, 95] = Num (195 / 2)"
proof -
  have e: "js_div binary64 (foldl (\<lambda>x y. js_add binary64 x (Num y)) (Num 0) [100, 95])
             (rat_of_nat (length [100, 95 :: rat])) = Num (195 / 2)"
    by code_simp
  show ?thesis
    using avg_empty_is_zero [of binary64 "[100, 95]"] avg_empty_is_zero [of Num "[100, 95]"] e
    by simp
qed

text \<open>
  Two runs of \<open>avg\<close> in double arithmetic. The prices 293.82 and 689.18 are read as
  the nearest doubles; their sum rounds up to 983, the average is 491.5 and the chart
  shows 492, although the mean of the two doubles is below 491.5. The prices 0.1, 4.1
  and 0.3 give an average just below 1.5, shown as 1.
\<close>

lemma avg_in_double_arithmetic:
  "binary64 (29382 / 100) = Num (5168936103570309 / 17592186044416)
   \<and> binary64 (68918 / 100) = Num (6062091389045309 / 8796093022208)
   \<and> avg binary64 [5168936103570309 / 17592186044416, 6062091389045309 / 8796093022208]
       = Num (983 / 2)
   \<and> Math_round (Num (983 / 2)) = Num 492
   \<and> \<lfloor>(5168936103570309 / 17592186044416 + 6062091389045309 / 8796093022208) / 2
        + 1 / 2 :: rat\<rfloor> = 491
   \<and> avg binary64 [3602879701896397 / 36028797018963968, 2308094809027379 / 562949953421312,
                    5404319552844595 / 18014398509481984]
       = Num (6755399441055743 / 4503599627370496)
   \<and> Math_round (Num (6755399441055743 / 4503599627370496)) = Num 1"
  by code_simp

section \<open>Decimal numerals and \<open>parseInt\<close>\<close>

lemma digit_char_props:
  assumes "d < 10"
  shows "is_digit (digit_char d) \<and> digit_val (digit_char d) = d"
proof -
  have "\<forall>d \<in> set [0..<10]. is_digit (digit_char d) \<and> digit_val (digit_char d) = d"
    by code_simp
  then show ?thesis using assms by simp
qed

lemma show_nat_digits: "\<forall>c \<in> set (show_nat n). is_digit c"
  by (induction n rule: show_nat.induct) (subst show_nat.simps, auto simp: digit_char_props)

lemma show_nat_ne: "show_nat n \<noteq> []"
  by (subst show_nat.simps) simp

lemma dec_val_snoc: "dec_val (ds @ [c]) = 10 * dec_val ds + digit_val c"
  by (simp add: dec_val_def)

lemma dec_val_show_nat: "dec_val (show_nat n) = n"
proof (induction n rule: show_nat.induct)
  case (1 n)
  show ?case
  proof (cases "n < 10")
    case True
    then show ?thesis by (subst show_nat.simps) (simp add: dec_val_def digit_char_props)
  next
    case False
    with 1 have "dec_val (show_nat (n div 10)) = n div 10" by simp
    with False show ?thesis
      by (subst show_nat.simps) (simp add: dec_val_snoc digit_char_props)
  qed
qed

lemma is_digit_not_special:
  "is_digit c \<Longrightarrow> \<not> is_space c \<and> c \<noteq> CHR ''-'' \<and> c \<noteq> CHR ''+''"
  by (auto simp: is_digit_def is_space_def)

lemma parseInt_digits:
  assumes "s \<noteq> []" and "\<forall>c \<in> set s. is_digit c"
  shows "parseInt s = Some (int (dec_val s))"
proof -
  obtain c r where cr: "s = c # r" using assms(1) by (cases s) auto
  have tw: "takeWhile is_digit r = r" using assms(2) cr by simp
  have "is_digit c" using assms(2) cr by simp
  then show ?thesis using is_digit_not_special[of c]
    by (simp add: parseInt_def Let_def cr tw)
qed

lemma parseInt_minus_digits:
  assumes "s \<noteq> []" and "\<forall>c \<in> set s. is_digit c"
  shows "parseInt (CHR ''-'' # s) = Some (- int (dec_val s))"
proof -
  have tw: "takeWhile is_digit s = s" using assms(2) by simp
  have "\<not> is_space CHR ''-''" by (simp add: is_space_def)
  then show ?thesis using assms(1)
    by (simp add: parseInt_def Let_def tw)
qed

lemma parseInt_toString:
  "\<bar>i\<bar> < 9007199254740992 \<Longrightarrow> parseInt (Number_toString P i) = Some i"
  using parseInt_digits[OF show_nat_ne show_nat_digits, of "nat i"]
        parseInt_minus_digits[OF show_nat_ne show_nat_digits, of "nat (- i)"]
  by (simp add: Number_toString_def dec_val_show_nat)

lemma Number_toString_inj:
  "\<bar>i\<bar> < 9007199254740992 \<Longrightarrow> \<bar>j\<bar> < 9007199254740992 \<Longrightarrow>
   Number_toString P i = Number_toString P j \<Longrightarrow> i = j"
  by (metis parseInt_toString option.inject)

section \<open>The stable sort\<close>

lemma js_insert_insort_key: "js_insert (\<lambda>a b. f b < f a) x ys = insort_key f x ys"
  for f :: "'a \<Rightarrow> 'k::linorder"
  by (induction ys) auto

lemma js_sort_sort_key: "js_sort (\<lambda>a b. f b < f a) xs = sort_key f xs"
  for f :: "'a \<Rightarrow> 'k::linorder"
  by (induction xs) (simp_all add: js_sort_def js_insert_insort_key)

lemma set_js_insert: "set (js_insert gt x ys) = insert x (set ys)"
  by (induction ys) auto

lemma set_js_sort: "set (js_sort gt xs) = set xs"
  by (induction xs) (simp_all add: js_sort_def set_js_insert)

lemma js_insert_cong:
  "(\<And>y. y \<in> set ys \<Longrightarrow> gt x y = gt' x y) \<Longrightarrow> js_insert gt x ys = js_insert gt' x ys"
  by (induction ys) auto

lemma js_sort_cong:
  "(\<And>x y. x \<in> set xs \<Longrightarrow> y \<in> set xs \<Longrightarrow> gt x y = gt' x y) \<Longrightarrow>
   js_sort gt xs = js_sort gt' xs"
proof (induction xs)
  case Nil
  then show ?case by (simp add: js_sort_def)
next
  case (Cons x xs)
  have ih: "js_sort gt xs = js_sort gt' xs" using Cons by simp
  have "js_insert gt x (js_sort gt' xs) = js_insert gt' x (js_sort gt' xs)"
    using Cons.prems by (intro js_insert_cong) (simp add: set_js_sort)
  then show ?case using ih by (simp add: js_sort_def)
qed

lemma num_gt_Some [simp]: "num_gt (Some a) (Some b) = (b < a)"
  by (simp add: num_gt_def)

lemma js_sort_num_gt_Some: "js_sort num_gt (map Some ds) = map Some (sort ds)"
  for ds :: "'n::linorder list"
proof -
  have ins: "js_insert num_gt (Some x) (map Some ys) = map Some (insort x ys)"
    for x :: 'n and ys
    by (induction ys) auto
  show ?thesis
    by (induction ds) (simp_all add: js_sort_def ins)
qed

lemma js_sort_Nil: "js_sort gt [] = []"
  by (simp add: js_sort_def)

section \<open>Grouping\<close>

lemma map_of_push_group:
  "map_of (push_group k c acc) =
     (map_of acc)(k \<mapsto> (case map_of acc k of None \<Rightarrow> [c] | Some arr \<Rightarrow> arr @ [c]))"
  by (induction acc) (auto simp: fun_eq_iff)

lemma keys_push_group:
  "map fst (push_group k c acc) =
     (if k \<in> fst ` set acc then map fst acc else map fst acc @ [k])"
  by (induction acc) force+

lemma grouped_keys: "grouped key rows g \<Longrightarrow> fst ` set g = key ` set rows"
proof -
  assume g: "grouped key rows g"
  have "fst ` set g = dom (map_of g)" by (simp add: dom_map_of_conv_image_fst)
  also have "\<dots> = key ` set rows" using g by (auto simp: grouped_def dom_def)
  finally show ?thesis .
qed

lemma grouped_push:
  assumes "grouped key pre acc"
  shows "grouped key (pre @ [c]) (push_group (key c) c acc)"
proof -
  have keys: "fst ` set acc = key ` set pre" using assms by (rule grouped_keys)
  have d: "distinct (map fst (push_group (key c) c acc))"
    using assms by (auto simp: keys_push_group grouped_def)
  have m: "map_of (push_group (key c) c acc) k =
        (if k \<in> key ` set (pre @ [c]) then Some (filter (\<lambda>r. key r = k) (pre @ [c]))
         else None)" for k
    using assms by (auto simp: map_of_push_group grouped_def filter_empty_conv image_iff)
  show ?thesis using d m by (simp add: grouped_def)
qed

lemma reduce_groups_grouped:
  assumes "grouped key pre acc" and "\<forall>r \<in> set rows. key r \<notin> set Object_prototype_names"
  shows "\<exists>g. reduce_groups key rows acc = Inr g \<and> grouped key (pre @ rows) g"
  using assms
proof (induction rows arbitrary: pre acc)
  case Nil
  then show ?case by simp
next
  case (Cons c rows)
  have "grouped key (pre @ [c]) (push_group (key c) c acc)"
    using Cons.prems(1) by (rule grouped_push)
  then have "\<exists>g. reduce_groups key rows (push_group (key c) c acc) = Inr g
                \<and> grouped key ((pre @ [c]) @ rows) g"
    using Cons.prems(2) by (intro Cons.IH) auto
  then show ?case using Cons.prems(2) by simp
qed

lemma groupBy_grouped:
  assumes "\<forall>r \<in> set rows. key r \<notin> set Object_prototype_names"
  shows "\<exists>g. groupBy rows key = Inr g \<and> grouped key rows g"
proof -
  have "grouped key [] []" by (simp add: grouped_def)
  from reduce_groups_grouped[OF this assms] show ?thesis by (simp add: groupBy_def)
qed

lemma reduce_groups_throws:
  "r \<in> set rows \<Longrightarrow> key r \<in> set Object_prototype_names \<Longrightarrow>
   reduce_groups key rows acc = Inl TypeError"
  by (induction rows arbitrary: acc) auto

lemma grouped_member:
  assumes "grouped key rows g" and "(k, arr) \<in> set g"
  shows "k \<in> key ` set rows \<and> arr = filter (\<lambda>r. key r = k) rows \<and> arr \<noteq> []"
proof -
  have "distinct (map fst g)" using assms(1) by (simp add: grouped_def)
  then have "map_of g k = Some arr" using assms(2) by simp
  then have 1: "k \<in> key ` set rows \<and> arr = filter (\<lambda>r. key r = k) rows"
    using assms(1) by (auto simp: grouped_def split: if_splits)
  then obtain r where "r \<in> set rows" "key r = k" by auto
  then have "r \<in> set (filter (\<lambda>r. key r = k) rows)" by simp
  then have "filter (\<lambda>r. key r = k) rows \<noteq> []" by (metis empty_iff empty_set)
  then show ?thesis using 1 by simp
qed

lemma mset_Object_entries: "mset (Object_entries obj) = mset obj"
  by (simp add: Object_entries_def)

lemma set_Object_entries: "set (Object_entries obj) = set obj"
  using mset_Object_entries[of obj] by (metis set_mset_mset)

lemma distinct_keys_Object_entries:
  "distinct (map fst (Object_entries obj)) = distinct (map fst obj)"
proof -
  have "mset (map fst (Object_entries obj)) = mset (map fst obj)"
    using mset_Object_entries[of obj] by (metis mset_map)
  then show ?thesis by (rule mset_eq_imp_distinct_iff)
qed

lemma map_or_throw_Inr:
  "(\<And>x. x \<in> set xs \<Longrightarrow> f x = Inr (g x)) \<Longrightarrow> map_or_throw f xs = Inr (map g xs)"
  by (induction xs) auto

lemma groupBy_Nil: "groupBy [] key = Inr []"
  by (simp add: groupBy_def)

lemma Object_entries_Nil: "Object_entries [] = []"
  by (simp add: Object_entries_def)

section \<open>The builders on the empty list\<close>

lemma buildBuyTimingChart_Nil:
  "buildBuyTimingChart P [] = Inr \<lparr>buy_labels = [], buy_data = []\<rparr>"
  by (simp add: buildBuyTimingChart_def groupBy_Nil Object_keys_def Object_entries_Nil js_sort_Nil)

lemma buildAirlineTable_Nil: "buildAirlineTable P [] = Inr []"
  by (simp add: buildAirlineTable_def groupBy_Nil Object_entries_Nil js_sort_Nil)

lemma buildItineraryTable_Nil: "buildItineraryTable Date [] = Inr []"
  by (simp add: buildItineraryTable_def groupBy_Nil Object_values_def Object_entries_Nil
      js_sort_Nil)

section \<open>Properties of the filter\<close>

lemma filterRows_eq_filter: "filterRows Date f raw = filter (accepts Date f) raw"
  by (auto simp: filterRows_def accepts_def Let_def intro: filter_cong)

text \<open>
  C2. With both origin boxes unchecked no record passes the second filter, so the
  filtered list is empty for every data set and every other setting of the form.
\<close>

theorem no_origin_selected_filters_everything:
  "\<not> useAMS f \<Longrightarrow> \<not> useEIN f \<Longrightarrow> filterRows Date f raw = []"
  by (simp add: filterRows_def Let_def)

theorem no_origin_selected_filters_everything_witness:
  "\<not> useAMS (example_form\<lparr>useAMS := False\<rparr>) \<and> \<not> useEIN (example_form\<lparr>useAMS := False\<rparr>) \<and>
   filterRows Date_iso example_form [example_tap, example_klm] = [example_tap, example_klm] \<and>
   filterRows Date_iso (example_form\<lparr>useAMS := False\<rparr>) [example_tap, example_klm] = []"
proof -
  have a: "\<not> useAMS (example_form\<lparr>useAMS := False\<rparr>)" by simp
  have b: "\<not> useEIN (example_form\<lparr>useAMS := False\<rparr>)" by (simp add: example_form_def)
  have c: "filterRows Date_iso example_form [example_tap, example_klm]
             = [example_tap, example_klm]"
    by code_simp
  show ?thesis
    using a b c no_origin_selected_filters_everything [OF a b, of Date_iso "[example_tap, example_klm]"]
    by simp
qed

text \<open>
  C6. Filtering a filtered list with a second setting of the form keeps exactly the
  records that both settings accept, that is, it filters the original list with the
  conjunction. When the second setting accepts every record of the list that the first
  one accepts, the second pass changes nothing; in particular filtering twice with the
  same setting is filtering once.
\<close>

theorem filter_composition_is_intersection:
  "filterRows Date c2 (filterRows Date c1 S) =
     filter (\<lambda>r. accepts Date c1 r \<and> accepts Date c2 r) S
   \<and> ((\<forall>r \<in> set S. accepts Date c1 r \<longrightarrow> accepts Date c2 r) \<longrightarrow>
        filterRows Date c2 (filterRows Date c1 S) = filterRows Date c1 S)
   \<and> filterRows Date c1 (filterRows Date c1 S) = filterRows Date c1 S"
  by (auto simp: filterRows_eq_filter intro: filter_cong)

theorem filter_composition_is_intersection_witness:
  "accepts Date_iso (example_form\<lparr>maxStops := ''0''\<rparr>) example_tap
   \<and> accepts Date_iso example_form example_tap
   \<and> \<not> accepts Date_iso (example_form\<lparr>maxStops := ''0''\<rparr>) example_klm
   \<and> accepts Date_iso example_form example_klm
   \<and> filterRows Date_iso example_form
        (filterRows Date_iso (example_form\<lparr>maxStops := ''0''\<rparr>) [example_tap, example_klm])
      = [example_tap]"
proof -
  have a: "accepts Date_iso (example_form\<lparr>maxStops := ''0''\<rparr>) example_tap"
          "accepts Date_iso example_form example_tap"
          "\<not> accepts Date_iso (example_form\<lparr>maxStops := ''0''\<rparr>) example_klm"
          "accepts Date_iso example_form example_klm"
    by code_simp+
  then have h: "\<forall>r \<in> set [example_tap, example_klm].
      accepts Date_iso (example_form\<lparr>maxStops := ''0''\<rparr>) r \<longrightarrow> accepts Date_iso example_form r"
    by simp
  have e: "filterRows Date_iso (example_form\<lparr>maxStops := ''0''\<rparr>) [example_tap, example_klm]
             = [example_tap]"
    by code_simp
  from filter_composition_is_intersection
         [of Date_iso example_form "example_form\<lparr>maxStops := ''0''\<rparr>"
             "[example_tap, example_klm]"] h
  have "filterRows Date_iso example_form
          (filterRows Date_iso (example_form\<lparr>maxStops := ''0''\<rparr>) [example_tap, example_klm])
        = filterRows Date_iso (example_form\<lparr>maxStops := ''0''\<rparr>) [example_tap, example_klm]"
    by blast
  then show ?thesis using a e by simp
qed

section \<open>Properties of the calendar chart\<close>

lemma concat_fixed_length:
  assumes "\<And>i. i < n \<Longrightarrow> length (g i) = k"
  shows "length (concat (map g [0..<n])) = n * k"
  using assms by (induction n) simp_all

lemma concat_fixed_nth:
  assumes "\<And>i. i < n \<Longrightarrow> length (g i) = k" and "i < n" and "j < k"
  shows "concat (map g [0..<n]) ! (i * k + j) = g i ! j"
  using assms
proof (induction n)
  case 0
  then show ?case by simp
next
  case (Suc n)
  have len: "length (concat (map g [0..<n])) = n * k"
    using Suc.prems(1) by (intro concat_fixed_length) simp
  show ?case
  proof (cases "i < n")
    case True
    then have "Suc i \<le> n" by simp
    then have "Suc i * k \<le> n * k" by (rule mult_le_mono1)
    then have "i * k + j < n * k" using Suc.prems(3) by simp
    then show ?thesis using Suc True by (simp add: nth_append len)
  next
    case False
    then have "i = n" using Suc.prems(2) by simp
    then show ?thesis using Suc.prems(3) by (simp add: nth_append len)
  qed
qed

lemma month_keys:
  "map (\<lambda>i. padStart2 (show_nat (i + 1))) [0..<12] =
     [''01'', ''02'', ''03'', ''04'', ''05'', ''06'', ''07'', ''08'', ''09'', ''10'', ''11'', ''12'']"
  by code_simp

lemma calendar_labels_nth:
  "\<forall>i \<in> set [0..<12]. \<forall>j \<in> set [0..<4].
     calendar_labels ! (i * 4 + j) = months ! i @ nb_hyphen @ ''W'' @ show_nat (j + 1)"
  by code_simp

lemma length_months: "length months = 12"
  by (simp add: months_def)

lemma wf_lookup_month:
  "wf_MonthlyLowest all \<Longrightarrow> lookup_month all key y mm = Some buckets \<Longrightarrow> length buckets = 4"
  unfolding wf_MonthlyLowest_def lookup_month_def
  by (auto split: bind_splits)

lemma getSeries_length:
  assumes "wf_MonthlyLowest all"
  shows "length (getSeries all key y) = 48"
proof -
  let ?g = "\<lambda>i. case lookup_month all key y (padStart2 (show_nat (i + 1))) of
                  None \<Rightarrow> [None, None, None, None]
                | Some buckets \<Rightarrow> buckets"
  have g4: "length (?g i) = 4" for i
    using wf_lookup_month[OF assms] by (simp split: option.splits)
  have "getSeries all key y = concat (map ?g [0..<12])"
    by (simp add: getSeries_def length_months)
  then show ?thesis using concat_fixed_length[of 12 ?g 4] g4 by simp
qed

lemma getSeries_nth:
  assumes "wf_MonthlyLowest all" and "i < 12" and "j < 4"
  shows "getSeries all key y ! (i * 4 + j) =
           (case lookup_month all key y (padStart2 (show_nat (i + 1))) of
              None \<Rightarrow> None | Some buckets \<Rightarrow> buckets ! j)"
proof -
  let ?g = "\<lambda>i. case lookup_month all key y (padStart2 (show_nat (i + 1))) of
                  None \<Rightarrow> [None, None, None, None]
                | Some buckets \<Rightarrow> buckets"
  have g4: "length (?g i) = 4" for i
    using wf_lookup_month[OF assms(1)] by (simp split: option.splits)
  have gs: "getSeries all key y = concat (map ?g [0..<12])"
    by (simp add: getSeries_def length_months)
  have "getSeries all key y ! (i * 4 + j) = ?g i ! j"
    unfolding gs using assms(2,3) g4 by (intro concat_fixed_nth) auto
  also have "\<dots> = (case lookup_month all key y (padStart2 (show_nat (i + 1))) of
                      None \<Rightarrow> None | Some buckets \<Rightarrow> buckets ! j)"
    using assms(3) by (auto split: option.splits simp: nth_Cons')
  finally show ?thesis .
qed

lemma wf_example_monthly: "wf_MonthlyLowest example_monthly"
  by (auto simp: wf_MonthlyLowest_def example_monthly_def split: if_splits)

text \<open>
  The invariant matters: \<open>getSeries\<close> splices in whatever buckets a month has, so a
  month with three buckets makes the series one value short.
\<close>

lemma getSeries_three_buckets:
  "length (getSeries [''AMS-LIS'' \<mapsto> [''2026'' \<mapsto> [''03'' \<mapsto> [Some (129 :: rat), None, Some 112]]]]
             ''AMS-LIS'' ''2026'') = 47"
  by code_simp

text \<open>
  C1. For monthly data in which every month that is present has its four buckets, and
  for every route key and year, the calendar has 48 labels, the month names in order each
  with the weeks W1 to W4, and the series has 48 values: position \<open>4 i + j\<close> holds bucket
  \<open>j\<close> of month \<open>i + 1\<close>, or \<^verbatim>\<open>null\<close> when the data has no entry for that month.
\<close>

theorem calendar_series_has_48_entries:
  assumes "wf_MonthlyLowest all"
  shows "length calendar_labels = 48 \<and> length (getSeries all key y) = 48
    \<and> (\<forall>i<12. \<forall>j<4.
          calendar_labels ! (i * 4 + j) = months ! i @ nb_hyphen @ ''W'' @ show_nat (j + 1)
          \<and> getSeries all key y ! (i * 4 + j) =
              (case lookup_month all key y (padStart2 (show_nat (i + 1))) of
                 None \<Rightarrow> None | Some buckets \<Rightarrow> buckets ! j))"
proof -
  have "length calendar_labels = 48" by (simp add: calendar_labels_def months_def)
  then show ?thesis
    using getSeries_length[OF assms] getSeries_nth[OF assms] calendar_labels_nth by simp
qed

theorem calendar_series_has_48_entries_witness:
  "wf_MonthlyLowest example_monthly
   \<and> length (getSeries example_monthly ''AMS-LIS'' ''2026'') = 48
   \<and> getSeries example_monthly ''AMS-LIS'' ''2026'' ! 8 = Some 129
   \<and> getSeries example_monthly ''AMS-LIS'' ''2026'' ! 4 = None
   \<and> calendar_labels ! 8 = ''Mrt'' @ nb_hyphen @ ''W1''"
proof -
  have m: "lookup_month example_monthly ''AMS-LIS'' ''2026'' ''03''
             = Some [Some 129, None, Some 112, None]"
          "lookup_month example_monthly ''AMS-LIS'' ''2026'' ''02'' = None"
    by (simp_all add: lookup_month_def example_monthly_def)
  have k: "padStart2 (show_nat 3) = ''03''" "padStart2 (show_nat (Suc (Suc 0))) = ''02''"
          "show_nat (Suc 0) = ''1''"
    by code_simp+
  have mo: "months ! 2 = ''Mrt''" by (simp add: months_def)
  from calendar_series_has_48_entries [OF wf_example_monthly, of "''AMS-LIS''" "''2026''"]
  have len: "length (getSeries example_monthly ''AMS-LIS'' ''2026'') = 48"
    and nth: "\<And>i j. i < 12 \<Longrightarrow> j < 4 \<Longrightarrow>
          calendar_labels ! (i * 4 + j) = months ! i @ nb_hyphen @ ''W'' @ show_nat (j + 1)
          \<and> getSeries example_monthly ''AMS-LIS'' ''2026'' ! (i * 4 + j) =
              (case lookup_month example_monthly ''AMS-LIS'' ''2026''
                      (padStart2 (show_nat (i + 1))) of
                 None \<Rightarrow> None | Some buckets \<Rightarrow> buckets ! j)"
    by blast+
  from nth[of 2 0] nth[of 1 0] show ?thesis
    using wf_example_monthly len by (simp add: m k mo)
qed

text \<open>
  C4. Once the monthly data is loaded, the chart has the series of 2026 and, after it,
  the series of 2025 exactly when the route has an entry for 2025. Without that entry
  (also when the route is missing altogether) the chart has the one series of 2026 only;
  with it the second series is there even if no month of 2025 has data.
\<close>

theorem prior_year_series_iff_present:
  "\<exists>c. buildCalendarChart (Some all) orig dest = Some c
     \<and> cal_labels c = calendar_labels
     \<and> (Option.bind (all (orig @ ''-'' @ dest)) (\<lambda>route. route ''2025'') = None \<longrightarrow>
          map ds_data (cal_datasets c) = [getSeries all (orig @ ''-'' @ dest) ''2026''])
     \<and> (Option.bind (all (orig @ ''-'' @ dest)) (\<lambda>route. route ''2025'') \<noteq> None \<longrightarrow>
          map ds_data (cal_datasets c) =
            [getSeries all (orig @ ''-'' @ dest) ''2026'',
             getSeries all (orig @ ''-'' @ dest) ''2025''])"
  by (auto simp: buildCalendarChart_def Let_def split: option.splits)

theorem prior_year_series_iff_present_witness:
  "Option.bind (example_monthly (''AMS'' @ ''-'' @ ''LIS'')) (\<lambda>route. route ''2025'') = None
   \<and> (\<exists>c. buildCalendarChart (Some example_monthly) ''AMS'' ''LIS'' = Some c
          \<and> map ds_data (cal_datasets c) = [getSeries example_monthly ''AMS-LIS'' ''2026''])
   \<and> Option.bind ((example_monthly(''AMS-LIS'' \<mapsto> [''2025'' \<mapsto> Map.empty])) (''AMS'' @ ''-'' @ ''LIS''))
        (\<lambda>route. route ''2025'') \<noteq> None
   \<and> (\<exists>c. buildCalendarChart (Some (example_monthly(''AMS-LIS'' \<mapsto> [''2025'' \<mapsto> Map.empty])))
            ''AMS'' ''LIS'' = Some c
          \<and> map ds_data (cal_datasets c) = [replicate 48 None, replicate 48 None])"
proof -
  let ?m = "example_monthly(''AMS-LIS'' \<mapsto> [''2025'' \<mapsto> Map.empty])"
  have a: "Option.bind (example_monthly (''AMS'' @ ''-'' @ ''LIS'')) (\<lambda>route. route ''2025'') = None"
    by (simp add: example_monthly_def)
  have b: "Option.bind (?m (''AMS'' @ ''-'' @ ''LIS'')) (\<lambda>route. route ''2025'') \<noteq> None"
    by simp
  have s: "getSeries ?m ''AMS-LIS'' y = replicate 48 None" for y
    by (simp add: getSeries_def lookup_month_def months_def upt_rec numeral_eq_Suc)
  show ?thesis
    using a b prior_year_series_iff_present [of example_monthly "''AMS''" "''LIS''"]
      prior_year_series_iff_present [of ?m "''AMS''" "''LIS''"]
    by (auto simp: s)
qed

section \<open>Properties of the chart and table builders\<close>

lemma inherited_names_head:
  "\<forall>n \<in> set Object_prototype_names. \<exists>c cs. n = c # cs \<and> \<not> is_digit c \<and> c \<noteq> CHR ''-''"
  by (simp add: Object_prototype_names_def is_digit_def)

lemma Number_toString_head:
  assumes "\<bar>i\<bar> < 9007199254740992"
  shows "\<exists>c cs. Number_toString P i = c # cs \<and> (is_digit c \<or> c = CHR ''-'')"
proof (cases "i < 0")
  case True
  then show ?thesis using assms by (simp add: Number_toString_def)
next
  case False
  obtain c cs where s: "show_nat (nat i) = c # cs"
    using show_nat_ne[of "nat i"] by (cases "show_nat (nat i)") auto
  then have "is_digit c" using show_nat_digits[of "nat i"] by simp
  then show ?thesis using False s assms by (simp add: Number_toString_def)
qed

lemma Number_toString_not_inherited:
  "\<bar>i\<bar> < 9007199254740992 \<Longrightarrow> Number_toString P i \<notin> set Object_prototype_names"
  using inherited_names_head Number_toString_head[of i P] by fastforce

lemma mset_js_insert: "mset (js_insert gt x ys) = add_mset x (mset ys)"
  by (induction ys) auto

lemma mset_js_sort: "mset (js_sort gt xs) = mset xs"
  by (induction xs) (simp_all add: js_sort_def mset_js_insert)

lemma sorted_wrt_js_insert:
  assumes "sorted_wrt le ys" and "x \<in> S" and "set ys \<subseteq> S"
    and tr: "\<And>a b c. a \<in> S \<Longrightarrow> b \<in> S \<Longrightarrow> c \<in> S \<Longrightarrow> le a b \<Longrightarrow> le b c \<Longrightarrow> le a c"
    and up: "\<And>a b. a \<in> S \<Longrightarrow> b \<in> S \<Longrightarrow> gt a b \<Longrightarrow> le b a"
    and dn: "\<And>a b. a \<in> S \<Longrightarrow> b \<in> S \<Longrightarrow> \<not> gt a b \<Longrightarrow> le a b"
  shows "sorted_wrt le (js_insert gt x ys)"
  using assms(1,3)
proof (induction ys)
  case Nil
  then show ?case by simp
next
  case (Cons y ys)
  show ?case
  proof (cases "gt x y")
    case True
    have "le y x" using up assms(2) Cons.prems(2) True by simp
    moreover have "\<forall>z \<in> set ys. le y z" using Cons.prems(1) by simp
    moreover have "sorted_wrt le (js_insert gt x ys)" using Cons by simp
    ultimately show ?thesis using True by (simp add: set_js_insert)
  next
    case False
    have xy: "le x y" using dn assms(2) Cons.prems(2) False by simp
    have "le x z" if "z \<in> set ys" for z
    proof -
      have "le y z" using Cons.prems(1) that by simp
      then show ?thesis using tr[of x y z] xy assms(2) Cons.prems(2) that by auto
    qed
    then show ?thesis using False xy Cons.prems(1) by simp
  qed
qed

lemma sorted_wrt_js_sort:
  assumes "set xs \<subseteq> S"
    and tr: "\<And>a b c. a \<in> S \<Longrightarrow> b \<in> S \<Longrightarrow> c \<in> S \<Longrightarrow> le a b \<Longrightarrow> le b c \<Longrightarrow> le a c"
    and up: "\<And>a b. a \<in> S \<Longrightarrow> b \<in> S \<Longrightarrow> gt a b \<Longrightarrow> le b a"
    and dn: "\<And>a b. a \<in> S \<Longrightarrow> b \<in> S \<Longrightarrow> \<not> gt a b \<Longrightarrow> le a b"
  shows "sorted_wrt le (js_sort gt xs)"
  using assms(1)
proof (induction xs)
  case Nil
  then show ?case by (simp add: js_sort_def)
next
  case (Cons x xs)
  have "sorted_wrt le (js_insert gt x (js_sort gt xs))"
  proof (rule sorted_wrt_js_insert[where S = S])
    show "sorted_wrt le (js_sort gt xs)" using Cons by simp
    show "x \<in> S" using Cons.prems by simp
    show "set (js_sort gt xs) \<subseteq> S" using Cons.prems by (simp add: set_js_sort)
  qed (use tr up dn in blast)+
  then show ?case by (simp add: js_sort_def)
qed

lemma number_le_trans: "number_le a b \<Longrightarrow> number_le b c \<Longrightarrow> number_le a c"
  by (cases a; cases b; cases c) (simp_all add: number_le_def)

lemma number_gt_le: "number_gt a b \<Longrightarrow> number_le b a"
  by (cases a; cases b) (simp_all add: number_le_def number_gt_def)

lemma not_number_gt_le: "a \<noteq> NaN \<Longrightarrow> b \<noteq> NaN \<Longrightarrow> \<not> number_gt a b \<Longrightarrow> number_le a b"
  by (cases a; cases b) (simp_all add: number_le_def number_gt_def)

lemma Object_keys_set: "grouped key rows g \<Longrightarrow> set (Object_keys g) = key ` set rows"
  using grouped_keys[of key rows g] by (simp add: Object_keys_def set_Object_entries)

lemma Object_keys_distinct: "grouped key rows g \<Longrightarrow> distinct (Object_keys g)"
  by (simp add: Object_keys_def distinct_keys_Object_entries grouped_def)

lemma first_minimum_of_sort_key:
  fixes f :: "'a \<Rightarrow> 'k::linorder"
  assumes "sort_key f xs = m # t"
  shows "(\<forall>y \<in> set xs. f m \<le> f y) \<and> (\<exists>rest. filter (\<lambda>y. f y = f m) xs = m # rest)"
proof -
  have "sorted (map f (sort_key f xs))" by simp
  then have "\<forall>y \<in> set (m # t). f m \<le> f y" unfolding assms by auto
  then have le: "\<forall>y \<in> set xs. f m \<le> f y"
    by (metis assms set_sort)
  have "filter (\<lambda>y. f y = f m) (sort_key f xs) = filter (\<lambda>y. f y = f m) xs"
    by (rule sort_key_stable)
  then have "filter (\<lambda>y. f y = f m) xs = m # filter (\<lambda>y. f y = f m) t"
    unfolding assms by simp
  then show ?thesis using le by blast
qed

lemma cheapest_first_minimum:
  assumes "arr = filter (\<lambda>r. key r = k) rows" and "arr \<noteq> []"
  shows "\<exists>m us vs. cheapest arr = Inr m \<and> key m = k \<and> rows = us @ m # vs
            \<and> (\<forall>u \<in> set us. key u = k \<longrightarrow> price_eur m < price_eur u)
            \<and> (\<forall>v \<in> set vs. key v = k \<longrightarrow> price_eur m \<le> price_eur v)"
proof -
  have s: "js_sort (\<lambda>a b. num_gt (Some (price_eur a)) (Some (price_eur b))) arr
             = sort_key price_eur arr"
    by (simp add: js_sort_sort_key)
  have "set (sort_key price_eur arr) \<noteq> {}" using assms(2) by simp
  then obtain m t where mt: "sort_key price_eur arr = m # t"
    by (cases "sort_key price_eur arr") auto
  have c: "cheapest arr = Inr m" unfolding cheapest_def s mt by simp
  from first_minimum_of_sort_key[OF mt]
  obtain rest where le: "\<forall>y \<in> set arr. price_eur m \<le> price_eur y"
    and fm: "filter (\<lambda>y. price_eur y = price_eur m) arr = m # rest" by blast
  have "m \<in> set arr" using mt set_sort[of price_eur arr] by (metis list.set_intros(1))
  then have km: "key m = k" using assms(1) by simp
  have "filter (\<lambda>r. key r = k \<and> price_eur r = price_eur m) rows = m # rest"
    using fm unfolding assms(1) by (simp add: conj_commute)
  then obtain us vs where d: "rows = us @ m # vs"
      and nu: "\<forall>u \<in> set us. \<not> (key u = k \<and> price_eur u = price_eur m)"
    unfolding filter_eq_Cons_iff by blast
  have inarr: "r \<in> set arr" if "r \<in> set rows" "key r = k" for r
    using that assms(1) by simp
  have 1: "\<forall>u \<in> set us. key u = k \<longrightarrow> price_eur m < price_eur u"
  proof (intro ballI impI)
    fix u assume u: "u \<in> set us" "key u = k"
    then have "price_eur m \<le> price_eur u" using le inarr d by simp
    moreover have "price_eur u \<noteq> price_eur m" using nu u by blast
    ultimately show "price_eur m < price_eur u" by simp
  qed
  have 2: "\<forall>v \<in> set vs. key v = k \<longrightarrow> price_eur m \<le> price_eur v"
    using le inarr d by simp
  show ?thesis using c km d 1 2 by blast
qed

text \<open>
  C7, as amended. For every record list whose values of \<open>days_before_departure\<close> are
  integers of magnitude below \<open>2^53\<close>, and for every platform, the labels of the
  buy-timing chart are the distinct values of \<open>days_before_departure\<close> in ascending
  numeric order, with no other value added, and the value at a label is
  \<^verbatim>\<open>Math.round\<close> of what \<open>avg\<close> returns for the prices of the records with that
  value, in their order in the list: their sum in double arithmetic, divided by their
  number.
\<close>

theorem buy_timing_series:
  assumes safe: "\<forall>r \<in> set rows. \<bar>days_before_departure r\<bar> < 9007199254740992"
  shows "buildBuyTimingChart P rows =
     Inr \<lparr>buy_labels = map Some (sorted_list_of_set (days_before_departure ` set rows)),
          buy_data =
            map (\<lambda>d. Math_round (avg (round_double P)
                          (map price_eur (filter (\<lambda>r. days_before_departure r = d) rows))))
                (sorted_list_of_set (days_before_departure ` set rows))\<rparr>"
proof -
  let ?key = "\<lambda>r. Number_toString P (days_before_departure r)"
  let ?D = "days_before_departure ` set rows"
  let ?L = "sorted_list_of_set ?D"
  have safeD: "\<bar>d\<bar> < 9007199254740992" if "d \<in> ?D" for d
    using that safe by auto
  obtain g where g: "groupBy rows ?key = Inr g" and gr: "grouped ?key rows g"
    using groupBy_grouped[of rows ?key] Number_toString_not_inherited safe by auto
  let ?K = "Object_keys g"
  let ?f = "\<lambda>k. case parseInt k of None \<Rightarrow> 0 | Some d \<Rightarrow> d"
  have setK: "set ?K = ?key ` set rows" using gr by (rule Object_keys_set)
  have distK: "distinct ?K" using gr by (rule Object_keys_distinct)
  have fkey: "parseInt (?key r) = Some (days_before_departure r)" if "r \<in> set rows" for r
    using that safe by (simp add: parseInt_toString)
  have parse: "parseInt k = Some (?f k)" if "k \<in> set ?K" for k
    using that setK fkey by auto
  have labels_parsed: "map parseInt ?K = map Some (map ?f ?K)"
    using parse by simp
  have inj: "inj_on ?f (set ?K)"
    unfolding setK by (rule inj_onI) (auto simp: fkey)
  have dist: "distinct (map ?f ?K)" using distK inj by (simp add: distinct_map)
  have "set (map ?f ?K) = ?f ` ?key ` set rows" using setK by simp
  also have "\<dots> = ?D" by (auto simp: fkey image_iff)
  finally have setds: "set (map ?f ?K) = ?D" .
  have "sorted_list_of_set (set (map ?f ?K)) = sort (remdups (map ?f ?K))"
    by (rule sorted_list_of_set_sort_remdups)
  then have sorted: "sort (map ?f ?K) = ?L"
    using setds dist by (simp only: distinct_remdups_id)
  have labels: "js_sort num_gt (map parseInt ?K) = map Some ?L"
    by (simp only: labels_parsed js_sort_num_gt_Some sorted)
  let ?F = "\<lambda>d. case map_of g (number_key P d) of
                   None \<Rightarrow> Inl TypeError
                 | Some arr \<Rightarrow> Inr (Math_round (avg (round_double P) (map price_eur arr)))"
  let ?G = "\<lambda>d. Math_round (avg (round_double P)
                   (map price_eur (filter (\<lambda>r. days_before_departure r = d) rows)))"
  have F: "?F (Some d) = Inr (?G d)" if d: "d \<in> ?D" for d
  proof -
    have "Number_toString P d \<in> ?key ` set rows" using d by auto
    then have "map_of g (Number_toString P d)
                 = Some (filter (\<lambda>r. ?key r = Number_toString P d) rows)"
      using gr by (simp add: grouped_def)
    moreover have "filter (\<lambda>r. ?key r = Number_toString P d) rows
                     = filter (\<lambda>r. days_before_departure r = d) rows"
    proof (rule filter_cong)
      fix r assume "r \<in> set rows"
      then have "\<bar>days_before_departure r\<bar> < 9007199254740992" using safe by simp
      then show "(?key r = Number_toString P d) = (days_before_departure r = d)"
        using Number_toString_inj[of "days_before_departure r" d P] safeD[OF d] by auto
    qed simp
    ultimately show ?thesis
      by (simp add: number_key_def)
  qed
  have "map_or_throw ?F (map Some ?L)
          = Inr (map (\<lambda>x. case x of None \<Rightarrow> NaN | Some d \<Rightarrow> ?G d) (map Some ?L))"
    by (rule map_or_throw_Inr) (auto simp: F)
  then have data: "map_or_throw ?F (map Some ?L) = Inr (map ?G ?L)"
    by (simp add: comp_def)
  show ?thesis
    unfolding buildBuyTimingChart_def g
    by (simp add: Let_def labels data)
qed

theorem buy_timing_series_witness:
  "buildBuyTimingChart ieee [example_tap, example_klm, example_tra]
     = Inr \<lparr>buy_labels = [Some 7, Some 30], buy_data = [Num 98, Num 120]\<rparr>"
proof -
  have h: "\<forall>r \<in> set [example_tap, example_klm, example_tra].
             \<bar>days_before_departure r\<bar> < 9007199254740992"
    by code_simp
  have e: "Inr \<lparr>buy_labels = map Some (sorted_list_of_set
                    (days_before_departure ` set [example_tap, example_klm, example_tra])),
          buy_data =
            map (\<lambda>d. Math_round (avg (round_double ieee)
                          (map price_eur (filter (\<lambda>r. days_before_departure r = d)
                             [example_tap, example_klm, example_tra]))))
                (sorted_list_of_set
                    (days_before_departure ` set [example_tap, example_klm, example_tra]))\<rparr>
     = (Inr \<lparr>buy_labels = [Some 7, Some 30], buy_data = [Num 98, Num 120]\<rparr>
          :: js_error + buy_chart)"
    by code_simp
  from buy_timing_series [OF h, of ieee] e show ?thesis by (rule trans)
qed

text \<open>
  C7, as stated, fails: the value is the rounded result of double arithmetic, not the
  rounded average. The two prices here are doubles, \<open>0.5 - 2^-54\<close> and \<open>0.5\<close>; their
  sum rounds to the double 1, so that \<open>avg\<close> returns 0.5 and the chart shows 1, while
  their average is below 0.5 and rounds to 0.
\<close>

theorem buy_timing_series_counterexample:
  "buildBuyTimingChart ieee
     [example_tap\<lparr>price_eur := 9007199254740991 / 18014398509481984\<rparr>,
      example_tap\<lparr>price_eur := 1 / 2\<rparr>]
     = Inr \<lparr>buy_labels = [Some 30], buy_data = [Num 1]\<rparr>
   \<and> binary64 (9007199254740991 / 18014398509481984)
       = Num (9007199254740991 / 18014398509481984)
   \<and> binary64 (1 / 2) = Num (1 / 2)
   \<and> \<lfloor>(9007199254740991 / 18014398509481984 + 1 / 2) / 2 + 1 / 2 :: rat\<rfloor> = 0"
  by code_simp

text \<open>
  Beyond the bound on the days the chart need not exist. The number \<open>10^21\<close> has the
  key \<^verbatim>\<open>1e+21\<close>, which \<open>parseInt\<close> reads as 1; the label 1 is no key of the
  grouping, and the builder throws.
\<close>

lemma buy_timing_chart_exponent_key_throws:
  "Number_toString ieee 1000000000000000000000 = ''1e+21''
   \<and> buildBuyTimingChart ieee
        [example_tap\<lparr>days_before_departure := 1000000000000000000000\<rparr>] = Inl TypeError"
  by code_simp

text \<open>
  C3. For every record list whose outbound dates are valid dates (and not inherited
  property names), the itinerary table has one row for each distinct outbound date. The
  row's record sits in the input at a position where every earlier record of the same date
  is strictly more expensive and every later one costs at least as much: it is the
  cheapest of its date, the first of them in input order. The rows ascend by date.
\<close>

theorem itinerary_rows:
  assumes valid: "\<forall>r \<in> set rows. Date (outbound_date r) \<noteq> None
                     \<and> outbound_date r \<notin> set Object_prototype_names"
  shows "\<exists>best. buildItineraryTable Date rows = Inr best
     \<and> distinct (map outbound_date best)
     \<and> outbound_date ` set best = outbound_date ` set rows
     \<and> (\<forall>b \<in> set best. \<exists>us vs. rows = us @ b # vs
           \<and> (\<forall>u \<in> set us. outbound_date u = outbound_date b \<longrightarrow> price_eur b < price_eur u)
           \<and> (\<forall>v \<in> set vs. outbound_date v = outbound_date b \<longrightarrow> price_eur b \<le> price_eur v))
     \<and> sorted_wrt (\<lambda>a b. num_le (Date (outbound_date a)) (Date (outbound_date b))) best"
proof -
  obtain g where g: "groupBy rows outbound_date = Inr g" and gr: "grouped outbound_date rows g"
    using groupBy_grouped[of rows outbound_date] valid by auto
  let ?E = "Object_entries g"
  let ?pick = "\<lambda>arr. projr (cheapest arr)"
  have E: "(k, arr) \<in> set g" if "(k, arr) \<in> set ?E" for k arr
    using that by (simp add: set_Object_entries)
  have pick: "cheapest arr = Inr (?pick arr) \<and> outbound_date (?pick arr) = k
        \<and> (\<exists>us vs. rows = us @ ?pick arr # vs
           \<and> (\<forall>u \<in> set us. outbound_date u = k \<longrightarrow> price_eur (?pick arr) < price_eur u)
           \<and> (\<forall>v \<in> set vs. outbound_date v = k \<longrightarrow> price_eur (?pick arr) \<le> price_eur v))"
    if "(k, arr) \<in> set ?E" for k arr
  proof -
    have "arr = filter (\<lambda>r. outbound_date r = k) rows \<and> arr \<noteq> []"
      using grouped_member[OF gr E[OF that]] by blast
    then obtain m us vs where "cheapest arr = Inr m" "outbound_date m = k" "rows = us @ m # vs"
        "\<forall>u \<in> set us. outbound_date u = k \<longrightarrow> price_eur m < price_eur u"
        "\<forall>v \<in> set vs. outbound_date v = k \<longrightarrow> price_eur m \<le> price_eur v"
      using cheapest_first_minimum[of arr outbound_date k rows] by blast
    then show ?thesis by auto
  qed
  let ?picked = "map ?pick (Object_values g)"
  have m0: "map_or_throw cheapest (Object_values g) = Inr ?picked"
  proof (rule map_or_throw_Inr)
    fix arr assume "arr \<in> set (Object_values g)"
    then obtain k where "(k, arr) \<in> set ?E" by (auto simp: Object_values_def)
    then show "cheapest arr = Inr (?pick arr)" using pick by blast
  qed
  have datesP: "map outbound_date ?picked = Object_keys g"
    unfolding Object_values_def Object_keys_def using pick by (auto simp: comp_def)
  have subP: "set ?picked \<subseteq> set rows"
  proof
    fix b assume "b \<in> set ?picked"
    then obtain k arr where "(k, arr) \<in> set ?E" "b = ?pick arr"
      by (auto simp: Object_values_def)
    then obtain us vs where "rows = us @ b # vs" using pick by blast
    then show "b \<in> set rows" by simp
  qed
  let ?dgt = "\<lambda>a b. num_gt (Date (outbound_date a)) (Date (outbound_date b))"
  let ?best = "js_sort ?dgt ?picked"
  have res: "buildItineraryTable Date rows = Inr ?best"
    by (simp add: buildItineraryTable_def g m0)
  have tv: "Date (outbound_date r) = Some (time_value Date r)" if "r \<in> set rows" for r
    using that valid by (auto simp: time_value_def)
  have "?best = js_sort (\<lambda>a b. time_value Date b < time_value Date a) ?picked"
  proof (rule js_sort_cong)
    fix x y assume "x \<in> set ?picked" "y \<in> set ?picked"
    then have "x \<in> set rows" "y \<in> set rows" using subP by blast+
    then show "?dgt x y = (time_value Date y < time_value Date x)" by (simp add: tv)
  qed
  then have best: "?best = sort_key (time_value Date) ?picked"
    by (simp only: js_sort_sort_key)
  have setb: "set ?best = set ?picked" by (simp only: best set_sort)
  have "mset (map outbound_date ?best) = mset (map outbound_date ?picked)"
    by (simp only: best mset_map mset_sort)
  then have "distinct (map outbound_date ?best) = distinct (Object_keys g)"
    unfolding datesP[symmetric] by (rule mset_eq_imp_distinct_iff)
  then have 1: "distinct (map outbound_date ?best)"
    using Object_keys_distinct[OF gr] by simp
  have "outbound_date ` set ?best = set (map outbound_date ?picked)"
    by (simp only: setb set_map)
  then have 2: "outbound_date ` set ?best = outbound_date ` set rows"
    using Object_keys_set[OF gr] by (simp only: datesP)
  have 3: "\<forall>b \<in> set ?best. \<exists>us vs. rows = us @ b # vs
           \<and> (\<forall>u \<in> set us. outbound_date u = outbound_date b \<longrightarrow> price_eur b < price_eur u)
           \<and> (\<forall>v \<in> set vs. outbound_date v = outbound_date b \<longrightarrow> price_eur b \<le> price_eur v)"
  proof
    fix b assume "b \<in> set ?best"
    then have "b \<in> set ?picked" by (simp only: setb)
    then obtain k arr where ka: "(k, arr) \<in> set ?E" "b = ?pick arr"
      by (auto simp: Object_values_def)
    from pick[OF ka(1)] ka(2) show "\<exists>us vs. rows = us @ b # vs
           \<and> (\<forall>u \<in> set us. outbound_date u = outbound_date b \<longrightarrow> price_eur b < price_eur u)
           \<and> (\<forall>v \<in> set vs. outbound_date v = outbound_date b \<longrightarrow> price_eur b \<le> price_eur v)"
      by auto
  qed
  have "sorted (map (time_value Date) ?best)" by (simp only: best sorted_sort_key)
  then have "sorted_wrt (\<lambda>a b. time_value Date a \<le> time_value Date b) ?best"
    by (simp only: sorted_map)
  then have 4: "sorted_wrt (\<lambda>a b. num_le (Date (outbound_date a)) (Date (outbound_date b))) ?best"
  proof (rule sorted_wrt_mono_rel[rotated])
    fix a b assume "a \<in> set ?best" "b \<in> set ?best" "time_value Date a \<le> time_value Date b"
    then have "a \<in> set rows" "b \<in> set rows" "time_value Date a \<le> time_value Date b"
      using subP unfolding setb by blast+
    then show "num_le (Date (outbound_date a)) (Date (outbound_date b))"
      by (simp add: tv num_le_def)
  qed
  show ?thesis using res 1 2 3 4 by blast
qed

theorem itinerary_rows_witness:
  "\<exists>best. buildItineraryTable Date_iso [example_tap, example_klm, example_tra] = Inr best
     \<and> best = [example_tra, example_klm]
     \<and> distinct (map outbound_date best)
     \<and> sorted_wrt (\<lambda>a b. num_le (Date_iso (outbound_date a)) (Date_iso (outbound_date b))) best"
proof -
  have h: "\<forall>r \<in> set [example_tap, example_klm, example_tra].
             Date_iso (outbound_date r) \<noteq> None \<and> outbound_date r \<notin> set Object_prototype_names"
    by code_simp
  have e: "buildItineraryTable Date_iso [example_tap, example_klm, example_tra]
             = Inr [example_tra, example_klm]"
    by code_simp
  from itinerary_rows[OF h] obtain best where
    "buildItineraryTable Date_iso [example_tap, example_klm, example_tra] = Inr best"
    "distinct (map outbound_date best)"
    "sorted_wrt (\<lambda>a b. num_le (Date_iso (outbound_date a)) (Date_iso (outbound_date b))) best"
    by blast
  then show ?thesis using e by simp
qed

text \<open>
  C8, as amended. For every platform and every record list none of whose airline keys is
  an inherited property name, and in which the average of no group is NaN, the airline
  table has one row for each distinct airline key (the airline string; the empty string
  is a key, and so are \<^verbatim>\<open>undefined\<close> for a record without airline and \<^verbatim>\<open>null\<close>
  for a null airline). The price of a row is \<^verbatim>\<open>Math.round\<close> of what \<open>avg\<close> returns
  for the prices of its group, and the rows ascend by this rounded price.
\<close>

theorem airline_rows_sorted_by_rounded_average:
  assumes ok: "\<forall>r \<in> set rows. airline_key r \<notin> set Object_prototype_names"
    and nn: "\<forall>r \<in> set rows.
               avg (round_double P)
                 (map price_eur (filter (\<lambda>s. airline_key s = airline_key r) rows)) \<noteq> NaN"
  shows "\<exists>items. buildAirlineTable P rows = Inr items
     \<and> distinct (map row_airline items)
     \<and> set (map row_airline items) = airline_key ` set rows
     \<and> (\<forall>it \<in> set items.
           row_price it =
             Math_round (avg (round_double P)
               (map price_eur (filter (\<lambda>r. airline_key r = row_airline it) rows))))
     \<and> sorted_wrt (\<lambda>a b. number_le (row_price a) (row_price b)) items"
proof -
  obtain g where g: "groupBy rows airline_key = Inr g" and gr: "grouped airline_key rows g"
    using groupBy_grouped[of rows airline_key] ok by auto
  let ?E = "Object_entries g"
  let ?made = "map (airline_item P) ?E"
  let ?Q = "\<lambda>it. row_price it =
             Math_round (avg (round_double P)
               (map price_eur (filter (\<lambda>r. airline_key r = row_airline it) rows)))"
  have item: "?Q it \<and> row_price it \<noteq> NaN" if it: "it \<in> set ?made" for it
  proof -
    obtain k arr where e: "(k, arr) \<in> set ?E" "it = airline_item P (k, arr)"
      using it by auto
    then have "(k, arr) \<in> set g" by (simp add: set_Object_entries)
    then have a: "k \<in> airline_key ` set rows" "arr = filter (\<lambda>r. airline_key r = k) rows"
      using grouped_member[OF gr] by blast+
    then obtain r where r: "r \<in> set rows" "airline_key r = k" by auto
    have "avg (round_double P) (map price_eur (filter (\<lambda>s. airline_key s = k) rows)) \<noteq> NaN"
      using nn r by auto
    then show ?thesis unfolding e(2) a(2) by (simp add: airline_item_def Math_round_NaN)
  qed
  have names: "map row_airline ?made = Object_keys g"
    by (simp add: Object_keys_def airline_item_def comp_def)
  let ?pgt = "\<lambda>a b. number_gt (row_price a) (row_price b)"
  let ?ple = "\<lambda>a b. number_le (row_price a) (row_price b)"
  let ?items = "js_sort ?pgt ?made"
  have res: "buildAirlineTable P rows = Inr ?items"
    by (simp add: buildAirlineTable_def g)
  have seti: "set ?items = set ?made" by (rule set_js_sort)
  have "mset (map row_airline ?items) = mset (map row_airline ?made)"
    by (simp only: mset_map mset_js_sort)
  then have "distinct (map row_airline ?items) = distinct (Object_keys g)"
    unfolding names[symmetric] by (rule mset_eq_imp_distinct_iff)
  then have 1: "distinct (map row_airline ?items)"
    using Object_keys_distinct[OF gr] by simp
  have "set (map row_airline ?items) = set (map row_airline ?made)"
    by (simp only: set_map seti)
  then have 2: "set (map row_airline ?items) = airline_key ` set rows"
    using Object_keys_set[OF gr] by (simp only: names)
  have 3: "\<forall>it \<in> set ?items. ?Q it"
    using item unfolding seti by blast
  have 4: "sorted_wrt ?ple ?items"
  proof (rule sorted_wrt_js_sort[where S = "set ?made"])
    show "set ?made \<subseteq> set ?made" by simp
  next
    fix a b c assume "?ple a b" "?ple b c"
    then show "?ple a c" by (rule number_le_trans)
  next
    fix a b assume "?pgt a b"
    then show "?ple b a" by (rule number_gt_le)
  next
    fix a b assume "a \<in> set ?made" "b \<in> set ?made" "\<not> ?pgt a b"
    then show "?ple a b" using item by (intro not_number_gt_le) blast+
  qed
  show ?thesis using res 1 2 3 4 by blast
qed

theorem airline_rows_sorted_by_rounded_average_witness:
  "\<exists>items. buildAirlineTable ieee [example_tap, example_klm, example_tra] = Inr items
     \<and> map row_airline items = [''KLM'', ''Transavia'', ''TAP'']
     \<and> map row_price items = [Num 95, Num 100, Num 120]
     \<and> sorted_wrt (\<lambda>a b. number_le (row_price a) (row_price b)) items"
proof -
  have h: "\<forall>r \<in> set [example_tap, example_klm, example_tra].
             airline_key r \<notin> set Object_prototype_names"
    by code_simp
  have n: "\<forall>r \<in> set [example_tap, example_klm, example_tra].
             avg (round_double ieee)
               (map price_eur (filter (\<lambda>s. airline_key s = airline_key r)
                  [example_tap, example_klm, example_tra])) \<noteq> NaN"
    by code_simp
  have e: "map_sum id (map row_airline)
             (buildAirlineTable ieee [example_tap, example_klm, example_tra])
             = Inr [''KLM'', ''Transavia'', ''TAP'']"
     "map_sum id (map row_price)
             (buildAirlineTable ieee [example_tap, example_klm, example_tra])
             = Inr [Num 95, Num 100, Num 120]"
    by code_simp+
  from airline_rows_sorted_by_rounded_average [OF h n] obtain items where
    "buildAirlineTable ieee [example_tap, example_klm, example_tra] = Inr items"
    "sorted_wrt (\<lambda>a b. number_le (row_price a) (row_price b)) items" by blast
  then show ?thesis using e by simp
qed

text \<open>
  C8, as stated, fails: the rows are sorted by the rounded average, so two groups whose
  averages round to the same integer keep their order of first occurrence. Here the
  averages are 100.25 and 99.75, both rows show 100, and the row of the larger average
  comes first.
\<close>

theorem airline_rows_not_sorted_by_average_counterexample:
  "buildAirlineTable ieee
     [example_tap\<lparr>price_eur := 401 / 4\<rparr>, example_klm\<lparr>price_eur := 399 / 4\<rparr>]
     = Inr [\<lparr>row_airline = ''TAP'', row_price = Num 100, row_stops = ''0.0'',
              row_layover = ''0.0''\<rparr>,
            \<lparr>row_airline = ''KLM'', row_price = Num 100, row_stops = ''1.0'',
              row_layover = ''3.0''\<rparr>]
   \<and> avg binary64 (map price_eur [example_tap\<lparr>price_eur := 401 / 4\<rparr>]) = Num (401 / 4)
   \<and> avg binary64 (map price_eur [example_klm\<lparr>price_eur := 399 / 4\<rparr>]) = Num (399 / 4)
   \<and> (399 / 4 :: rat) < 401 / 4"
  by code_simp

text \<open>
  Two more observations on the grouping by airline. A record without airline and a
  record with the empty airline are in different groups, the first of them shown as
  \<^verbatim>\<open>undefined\<close>. An airline that is spelled like an inherited property makes
  \<open>groupBy\<close> throw, so that no table is built.
\<close>

lemma airline_table_missing_and_empty:
  "map_sum id (map row_airline)
     (buildAirlineTable ieee
        [example_tap\<lparr>airline := NoAirline\<rparr>, example_klm\<lparr>airline := Airline []\<rparr>])
   = Inr [[], ''undefined'']"
  by code_simp

lemma airline_table_inherited_name_throws:
  "buildAirlineTable P [example_tap\<lparr>airline := Airline ''constructor''\<rparr>] = Inl TypeError"
  by (simp add: buildAirlineTable_def groupBy_def airline_key_def example_tap_def
      Object_prototype_names_def)

section \<open>Properties of loading and of the analysis\<close>

lemma loadData_rejected:
  "loadData NetworkError = Records [] \<and> loadData (Response status None) = Records []"
  by (simp add: loadData_def)

lemma runAnalysis_empty:
  "runAnalysis Date P f (Records []) fetched =
     Inr \<lparr>filtered = [], buyTimingChart = \<lparr>buy_labels = [], buy_data = []\<rparr>,
          airlineTable = [], itineraryTable = [],
          calendarOrigin = (if useAMS f then ''AMS'' else if useEIN f then ''EIN'' else ''AMS''),
          calendarChart = buildCalendarChart fetched
             (if useAMS f then ''AMS'' else if useEIN f then ''EIN'' else ''AMS'') (citySelect f)\<rparr>"
  by (simp add: runAnalysis_def filterRows_def Let_def buildBuyTimingChart_Nil buildAirlineTable_Nil buildItineraryTable_Nil)

text \<open>
  C10. When both origin boxes are unchecked, the filtered list, the buy-timing chart and
  both tables are empty, and the calendar chart is still requested for the origin AMS.
  AMS is also the origin whenever its box is checked, whatever the box of EIN says. Once
  the monthly data is loaded that chart exists, and its first series is labelled with the
  route from AMS.
\<close>

theorem calendar_origin_defaults_to_AMS:
  "(\<not> useAMS f \<and> \<not> useEIN f \<longrightarrow>
     runAnalysis Date P f (Records rs) fetched =
       Inr \<lparr>filtered = [], buyTimingChart = \<lparr>buy_labels = [], buy_data = []\<rparr>,
            airlineTable = [], itineraryTable = [], calendarOrigin = ''AMS'',
            calendarChart = buildCalendarChart fetched ''AMS'' (citySelect f)\<rparr>)
   \<and> (useAMS f \<longrightarrow> runAnalysis Date P f (Records rs) fetched = Inr a \<longrightarrow>
        calendarOrigin a = ''AMS'' \<and> calendarChart a = buildCalendarChart fetched ''AMS'' (citySelect f))
   \<and> (\<exists>c. buildCalendarChart (Some all) ''AMS'' dest = Some c \<and>
           map ds_label (cal_datasets c) ! 0 = ''AMS-'' @ dest @ '' '' @ en_dash @ '' 2026'')"
proof -
  have 1: "runAnalysis Date P f (Records rs) fetched =
       Inr \<lparr>filtered = [], buyTimingChart = \<lparr>buy_labels = [], buy_data = []\<rparr>,
            airlineTable = [], itineraryTable = [], calendarOrigin = ''AMS'',
            calendarChart = buildCalendarChart fetched ''AMS'' (citySelect f)\<rparr>"
    if "\<not> useAMS f \<and> \<not> useEIN f"
  proof -
    have "filterRows Date f rs = []" using that by (simp add: filterRows_def Let_def)
    then show ?thesis using that 
      by (simp add: runAnalysis_def Let_def buildBuyTimingChart_Nil buildAirlineTable_Nil buildItineraryTable_Nil)
  qed
  have 2: "calendarOrigin a = ''AMS'' \<and> calendarChart a = buildCalendarChart fetched ''AMS'' (citySelect f)"
    if "useAMS f" "runAnalysis Date P f (Records rs) fetched = Inr a"
    using that by (auto simp: runAnalysis_def Let_def split: sum.splits)
  have 3: "\<exists>c. buildCalendarChart (Some all) ''AMS'' dest = Some c \<and>
           map ds_label (cal_datasets c) ! 0 = ''AMS-'' @ dest @ '' '' @ en_dash @ '' 2026''"
    by (simp add: buildCalendarChart_def Let_def split: option.splits)
  show ?thesis using 1 2 3 by blast
qed

theorem calendar_origin_defaults_to_AMS_witness:
  "runAnalysis Date_iso ieee (example_form\<lparr>useAMS := False\<rparr>) (Records [example_tap, example_klm])
      (Some example_monthly) =
     Inr \<lparr>filtered = [], buyTimingChart = \<lparr>buy_labels = [], buy_data = []\<rparr>,
          airlineTable = [], itineraryTable = [], calendarOrigin = ''AMS'',
          calendarChart = buildCalendarChart (Some example_monthly) ''AMS'' ''LIS''\<rparr>
   \<and> map_sum id calendarOrigin
        (runAnalysis Date_iso ieee (example_form\<lparr>useEIN := True\<rparr>) (Records [example_tap, example_klm])
           (Some example_monthly)) = Inr ''AMS''
   \<and> map_sum id filtered
        (runAnalysis Date_iso ieee (example_form\<lparr>useEIN := True\<rparr>) (Records [example_tap, example_klm])
           (Some example_monthly)) = Inr [example_tap, example_klm]"
proof -
  have f: "\<not> useAMS (example_form\<lparr>useAMS := False\<rparr>) \<and> \<not> useEIN (example_form\<lparr>useAMS := False\<rparr>)"
    "citySelect (example_form\<lparr>useAMS := False\<rparr>) = ''LIS''"
    by (simp_all add: example_form_def)
  have b: "map_sum id calendarOrigin
        (runAnalysis Date_iso ieee (example_form\<lparr>useEIN := True\<rparr>) (Records [example_tap, example_klm])
           (Some example_monthly)) = Inr ''AMS''"
     "map_sum id filtered
        (runAnalysis Date_iso ieee (example_form\<lparr>useEIN := True\<rparr>) (Records [example_tap, example_klm])
           (Some example_monthly)) = Inr [example_tap, example_klm]"
    by code_simp+
  from calendar_origin_defaults_to_AMS [where f = "example_form\<lparr>useAMS := False\<rparr>" and Date = Date_iso
        and rs = "[example_tap, example_klm]" and fetched = "Some example_monthly", THEN conjunct1] f
  have "runAnalysis Date_iso ieee (example_form\<lparr>useAMS := False\<rparr>) (Records [example_tap, example_klm])
      (Some example_monthly) =
     Inr \<lparr>filtered = [], buyTimingChart = \<lparr>buy_labels = [], buy_data = []\<rparr>,
          airlineTable = [], itineraryTable = [], calendarOrigin = ''AMS'',
          calendarChart = buildCalendarChart (Some example_monthly) ''AMS'' ''LIS''\<rparr>"
    by simp
  then show ?thesis using b by simp
qed

text \<open>
  C9. \<open>loadData\<close> does not look at the status of the response. A response with
  status 404 whose body is JSON is stored as it is: a list of records stays the raw data,
  and with any other JSON value the next \<^verbatim>\<open>runAnalysis\<close> throws at
  \<^verbatim>\<open>state.raw.filter\<close>. Only a rejected fetch and a body that is not JSON give
  the empty list (\<open>loadData_rejected\<close>), on which the analysis is empty
  (\<open>runAnalysis_empty\<close>).
\<close>

theorem loadData_keeps_body_of_error_response:
  "loadData (Response 404 (Some (Records [example_tap]))) = Records [example_tap]
   \<and> loadData (Response 404 (Some NotAnArray)) = NotAnArray
   \<and> runAnalysis Date_iso ieee example_form (loadData (Response 404 (Some NotAnArray)))
        (None :: rat MonthlyLowest option) = Inl TypeError"
  by (simp add: loadData_def runAnalysis_def)

end
